theory Spec2Isabelle
  imports Complex_Main "HOL-Library.Sublist"
begin

text \<open>
  A model of the document-understanding core of the code agent: the code parser and the
  problem parser with the regular expressions they rely on, the text extraction around the
  OCR engine, and the region segmentation and perspective correction of the image
  processor. The parsers are modelled in full, on top of a model of the backtracking
  matcher of Python's \<open>re\<close>; the calls into OpenCV and Tesseract are parameters of the
  model.
\<close>

section \<open>Python strings\<close>

text \<open>
  A Python \<open>str\<close> is modelled as a \<^typ>\<open>string\<close> whose characters stand for the code
  points below 256. The character classes below are the tables of CPython for that range:
  \<open>str.isspace\<close> (used by \<open>str.strip\<close> and by \<open>\s\<close>), the decimal digits (\<open>\d\<close>)
  and the alphanumerics plus underscore (\<open>\w\<close>).
\<close>

definition code_point :: "char \<Rightarrow> int" where
  "code_point c = of_char c"

definition between :: "int \<Rightarrow> int \<Rightarrow> int \<Rightarrow> bool" where
  "between lo hi n = (lo \<le> n \<and> n \<le> hi)"

definition space_code :: "int \<Rightarrow> bool" where
  "space_code n = (between 9 13 n \<or> between 28 32 n \<or> n = 133 \<or> n = 160)"

definition word_code :: "int \<Rightarrow> bool" where
  "word_code n = (between 97 122 n \<or> between 65 90 n \<or> between 48 57 n \<or> n = 95
     \<or> n = 170 \<or> between 178 179 n \<or> n = 181 \<or> between 185 186 n
     \<or> between 188 190 n \<or> between 192 214 n \<or> between 216 246 n \<or> between 248 255 n)"

definition is_space :: "char \<Rightarrow> bool" where
  "is_space c = space_code (code_point c)"

definition is_digit :: "char \<Rightarrow> bool" where
  "is_digit c = between 48 57 (code_point c)"

definition is_word :: "char \<Rightarrow> bool" where
  "is_word c = word_code (code_point c)"

definition strip :: "string \<Rightarrow> string" where
  "strip s = rev (dropWhile is_space (rev (dropWhile is_space s)))"

fun strip_prefix :: "string \<Rightarrow> string \<Rightarrow> string option" where
  "strip_prefix [] s = Some s"
| "strip_prefix (a # as) [] = None"
| "strip_prefix (a # as) (x # xs) = (if a = x then strip_prefix as xs else None)"

lemma strip_prefix_length: "strip_prefix old s = Some r \<Longrightarrow> length r + length old = length s"
  by (induction old s rule: strip_prefix.induct) (auto split: if_splits)

text \<open>\<open>sub in s\<close>: substring test.\<close>

fun contains :: "string \<Rightarrow> string \<Rightarrow> bool" where
  "contains sub [] = (sub = [])"
| "contains sub (x # xs) = (strip_prefix sub (x # xs) \<noteq> None \<or> contains sub xs)"

text \<open>
  \<open>s.replace(old, new)\<close> for a non-empty \<open>old\<close>: the occurrences are replaced from left to
  right and the scan goes on behind each replaced occurrence. (Every call of the source has a
  non-empty \<open>old\<close>; for an empty one the model returns the text as it is.)
\<close>

function replace :: "string \<Rightarrow> string \<Rightarrow> string \<Rightarrow> string" where
  "replace old new [] = []"
| "replace old new (x # xs) =
     (if old = [] then x # xs
      else case strip_prefix old (x # xs) of
             Some r \<Rightarrow> new @ replace old new r
           | None \<Rightarrow> x # replace old new xs)"
  by pat_completeness auto
termination
proof (relation "measure (\<lambda>(old, new, s). length s)")
  fix old new :: string and x xs r
  assume "old \<noteq> []" and "strip_prefix old (x # xs) = Some r"
  then have "length r + length old = length (x # xs)" and "0 < length old"
    by (simp_all add: strip_prefix_length)
  then have "length r < length (x # xs)"
    by linarith
  then show "((old, new, r), (old, new, x # xs)) \<in> measure (\<lambda>(old, new, s). length s)"
    by simp
qed simp_all

section \<open>Regular expressions of Python's \<open>re\<close>\<close>

text \<open>
  The patterns of the source are terms of \<open>regex\<close>. The matcher is the backtracking matcher
  of \<open>re\<close>: \<open>ms r st\<close> lists every way \<open>r\<close> can match at the state \<open>st\<close>, in the order in
  which backtracking tries them, so that the head of the list is the match \<open>re\<close> reports.
  A state is the character before the position (for \<open>^\<close>), the text from the position on
  and the groups captured so far (the latest capture of a group first).
\<close>

datatype item = Ch char | Rng char char | WordC | SpaceC | DigitC

fun item_has :: "item \<Rightarrow> char \<Rightarrow> bool" where
  "item_has (Ch a) c = (c = a)"
| "item_has (Rng a b) c = between (code_point a) (code_point b) (code_point c)"
| "item_has WordC c = is_word c"
| "item_has SpaceC c = is_space c"
| "item_has DigitC c = is_digit c"

datatype regex =
    Chr char
  | Dot
  | Set "item list"
  | NSet "item list"
  | Any
  | Eps
  | Bol
  | Start
  | Eol
  | Look regex
  | Seq regex regex
  | Alt regex regex
  | Star regex
  | StarLazy regex
  | Group nat regex

type_synonym caps = "(nat \<times> string) list"
type_synonym mstate = "char option \<times> string \<times> caps"

fun one :: "(char \<Rightarrow> bool) \<Rightarrow> mstate \<Rightarrow> mstate list" where
  "one P (p, [], c) = []"
| "one P (p, x # xs, c) = (if P x then [(Some x, xs, c)] else [])"

definition rest :: "mstate \<Rightarrow> string" where
  "rest st = fst (snd st)"

definition advances :: "mstate \<Rightarrow> mstate \<Rightarrow> bool" where
  "advances st st' = (length (rest st') < length (rest st))"

text \<open>
  Repetition, greedy (more iterations first) or lazy (fewer first). The second argument
  bounds the number of iterations: an iteration that consumes nothing is not repeated (as in
  \<open>re\<close>), so a text of \<open>n\<close> characters allows \<open>n\<close> iterations at most, and \<open>ms\<close> passes the
  remaining text itself as the bound.
\<close>

primrec star :: "bool \<Rightarrow> 'a list \<Rightarrow> (mstate \<Rightarrow> mstate list) \<Rightarrow> mstate \<Rightarrow> mstate list" where
  "star lazy [] f st = [st]"
| "star lazy (x # fuel) f st =
     (if lazy then st # concat (map (star lazy fuel f) (filter (advances st) (f st)))
      else concat (map (star lazy fuel f) (filter (advances st) (f st))) @ [st])"

text \<open>
  The assertions: \<open>^\<close> under \<open>re.MULTILINE\<close> (\<open>Bol\<close>: at the start of the text or behind a
  newline), \<open>^\<close> without it (\<open>Start\<close>), \<open>$\<close> without it (\<open>Eol\<close>: at the end of the text or
  before a newline that ends the text) and the lookahead \<open>(?=r)\<close>.
\<close>

definition bol :: "mstate \<Rightarrow> mstate list" where
  "bol st = (if fst st = None \<or> fst st = Some (CHR 0x0A) then [st] else [])"

definition bos :: "mstate \<Rightarrow> mstate list" where
  "bos st = (if fst st = None then [st] else [])"

definition eol :: "mstate \<Rightarrow> mstate list" where
  "eol st = (if rest st = [] \<or> rest st = [CHR 0x0A] then [st] else [])"

definition look :: "mstate list \<Rightarrow> mstate \<Rightarrow> mstate list" where
  "look found st = (if found = [] then [] else [st])"

definition capture :: "nat \<Rightarrow> mstate \<Rightarrow> mstate \<Rightarrow> mstate" where
  "capture i st st' =
     (fst st', rest st', (i, take (length (rest st) - length (rest st')) (rest st)) # snd (snd st'))"

primrec ms :: "regex \<Rightarrow> mstate \<Rightarrow> mstate list" where
  "ms (Chr a) st = one (\<lambda>c. c = a) st"
| "ms Dot st = one (\<lambda>c. c \<noteq> CHR 0x0A) st"
| "ms (Set is) st = one (\<lambda>c. \<exists>i \<in> set is. item_has i c) st"
| "ms (NSet is) st = one (\<lambda>c. \<not> (\<exists>i \<in> set is. item_has i c)) st"
| "ms Any st = one (\<lambda>c. True) st"
| "ms Eps st = [st]"
| "ms Bol st = bol st"
| "ms Start st = bos st"
| "ms Eol st = eol st"
| "ms (Look a) st = look (ms a st) st"
| "ms (Seq a b) st = concat (map (ms b) (ms a st))"
| "ms (Alt a b) st = ms a st @ ms b st"
| "ms (Star a) st = star False (rest st) (ms a) st"
| "ms (StarLazy a) st = star True (rest st) (ms a) st"
| "ms (Group i a) st = map (capture i st) (ms a st)"

text \<open>The derived forms: \<open>r+\<close>, \<open>r?\<close>, a literal string, a sequence and an alternation.\<close>

definition Plus :: "regex \<Rightarrow> regex" where
  "Plus r = Seq r (Star r)"

definition Opt :: "regex \<Rightarrow> regex" where
  "Opt r = Alt r Eps"

definition lit :: "string \<Rightarrow> regex" where
  "lit s = foldr (\<lambda>c r. Seq (Chr c) r) s Eps"

definition cat :: "regex list \<Rightarrow> regex" where
  "cat rs = foldr Seq rs Eps"

fun alts :: "regex list \<Rightarrow> regex" where
  "alts [] = Set []"
| "alts [r] = r"
| "alts (r # rs) = Alt r (alts rs)"

abbreviation ws :: regex where "ws \<equiv> Set [SpaceC]"
abbreviation wd :: regex where "wd \<equiv> Set [WordC]"

text \<open>A match object: \<open>group(0)\<close>, the groups, and the text behind the match.\<close>

record rmatch =
  whole :: string
  groups :: caps
  after :: string
  last_char :: "char option"

definition mk_match :: "string \<Rightarrow> mstate \<Rightarrow> rmatch" where
  "mk_match s st = \<lparr>whole = take (length s - length (rest st)) s, groups = snd (snd st),
                     after = rest st, last_char = fst st\<rparr>"

text \<open>\<open>m.group(i)\<close> for \<open>i > 0\<close>: \<open>None\<close> when the group took no part in the match.\<close>

definition group :: "rmatch \<Rightarrow> nat \<Rightarrow> string option" where
  "group m i = map_of (groups m) i"

text \<open>\<open>m.group(i) if m.group(i) else d\<close>.\<close>

definition group_or :: "rmatch \<Rightarrow> nat \<Rightarrow> string \<Rightarrow> string" where
  "group_or m i d = (case group m i of None \<Rightarrow> d | Some g \<Rightarrow> if g = [] then d else g)"

text \<open>\<open>re.match\<close>: at the start of the text only.\<close>

definition re_match :: "regex \<Rightarrow> string \<Rightarrow> rmatch option" where
  "re_match r s = (case ms r (None, s, []) of [] \<Rightarrow> None | st # _ \<Rightarrow> Some (mk_match s st))"

text \<open>\<open>re.search\<close>: the first position, from left to right, where the pattern matches.\<close>

fun search_from :: "regex \<Rightarrow> char option \<Rightarrow> string \<Rightarrow> rmatch option" where
  "search_from r p [] =
     (case ms r (p, [], []) of [] \<Rightarrow> None | st # _ \<Rightarrow> Some (mk_match [] st))"
| "search_from r p (x # xs) =
     (case ms r (p, x # xs, []) of
        [] \<Rightarrow> search_from r (Some x) xs
      | st # _ \<Rightarrow> Some (mk_match (x # xs) st))"

definition re_search :: "regex \<Rightarrow> string \<Rightarrow> rmatch option" where
  "re_search r s = search_from r None s"


text \<open>
  \<open>re.sub(pattern, repl, text, count)\<close>: the matches are replaced from left to right, each
  search starting behind the previous match; \<open>count = 0\<close> replaces every match. Every
  pattern the source substitutes, iterates over or splits at matches one character at least;
  at an empty match the model copies one character and goes on.
\<close>

function re_sub :: "regex \<Rightarrow> (rmatch \<Rightarrow> string) \<Rightarrow> nat \<Rightarrow> char option \<Rightarrow> string \<Rightarrow> string" where
  "re_sub r f count p [] = (case ms r (p, [], []) of [] \<Rightarrow> [] | st # _ \<Rightarrow> f (mk_match [] st))"
| "re_sub r f count p (x # xs) =
     (case ms r (p, x # xs, []) of
        [] \<Rightarrow> x # re_sub r f count (Some x) xs
      | st # _ \<Rightarrow>
          if count = 1 then f (mk_match (x # xs) st) @ rest st
          else if length (rest st) < length (x # xs)
          then f (mk_match (x # xs) st) @ re_sub r f (count - 1) (fst st) (rest st)
          else f (mk_match (x # xs) st) @ x # re_sub r f (count - 1) (Some x) xs)"
  by pat_completeness auto
termination
  by (relation "measure (\<lambda>(r, f, count, p, s). length s)") simp_all

text \<open>\<open>re.finditer\<close>: the matches from left to right.\<close>

function finditer :: "regex \<Rightarrow> char option \<Rightarrow> string \<Rightarrow> rmatch list" where
  "finditer r p [] = (case ms r (p, [], []) of [] \<Rightarrow> [] | st # _ \<Rightarrow> [mk_match [] st])"
| "finditer r p (x # xs) =
     (case ms r (p, x # xs, []) of
        [] \<Rightarrow> finditer r (Some x) xs
      | st # _ \<Rightarrow>
          if length (rest st) < length (x # xs)
          then mk_match (x # xs) st # finditer r (fst st) (rest st)
          else mk_match (x # xs) st # finditer r (Some x) xs)"
  by pat_completeness auto
termination
  by (relation "measure (\<lambda>(r, p, s). length s)") simp_all

text \<open>\<open>re.split\<close> for a pattern without groups: the pieces between the matches; the third
  argument is the piece collected so far.\<close>

function re_split :: "regex \<Rightarrow> char option \<Rightarrow> string \<Rightarrow> string \<Rightarrow> string list" where
  "re_split r p piece [] = [piece]"
| "re_split r p piece (x # xs) =
     (case ms r (p, x # xs, []) of
        [] \<Rightarrow> re_split r (Some x) (piece @ [x]) xs
      | st # _ \<Rightarrow>
          if length (rest st) < length (x # xs)
          then piece # re_split r (fst st) [] (rest st)
          else re_split r (Some x) (piece @ [x]) xs)"
  by pat_completeness auto
termination
  by (relation "measure (\<lambda>(r, p, piece, s). length s)") simp_all

section \<open>The code parser (\<open>desktop_app/parsing/code_parser.py\<close>)\<close>

record param =
  p_name :: string
  p_type :: string
  p_default :: "string option"

record code_info =
  language :: string
  function_signature :: string
  function_name :: string
  parameters :: "param list"
  return_type :: string
  class_context :: string

text \<open>The dictionary every \<open>_parse_*\<close> method starts from (the language is set by \<open>parse\<close>).\<close>

definition empty_result :: code_info where
  "empty_result = \<lparr>language = [], function_signature = [], function_name = [],
                    parameters = [], return_type = [], class_context = []\<rparr>"

subsection \<open>\<open>_clean_code_text\<close>\<close>

text \<open>\<open>(\w)([+\-*/=<>])(\w)\<close>, replaced by \<open>\1 \2 \3\<close>.\<close>

definition operator_re :: regex where
  "operator_re = cat [Group 1 wd,
     Group 2 (Set [Ch CHR ''+'', Ch CHR ''-'', Ch CHR ''*'', Ch CHR ''/'', Ch CHR ''='', Ch CHR ''<'', Ch CHR ''>'']),
     Group 3 wd]"

definition spaced :: "rmatch \<Rightarrow> string" where
  "spaced m = group_or m 1 [] @ '' '' @ group_or m 2 [] @ '' '' @ group_or m 3 []"

text \<open>\<open>^\s*\d+\s+\<close> with \<open>re.MULTILINE\<close>, replaced by the empty string.\<close>

definition line_number_re :: regex where
  "line_number_re = cat [Bol, Star ws, Plus (Set [DigitC]), Plus ws]"

text \<open>
  The first four \<open>replace\<close> calls of the source rewrite U+201E, the ASCII quote (by itself),
  U+2013 and U+2014; on text of code points below 256 they change nothing and only the
  second is written out.
\<close>

definition clean_code_text :: "string \<Rightarrow> string" where
  "clean_code_text code_text =
     (let t = replace [CHR 0x22] [CHR 0x22] code_text;
          t = replace ''0bject'' ''Object'' t;
          t = replace ''l.ist'' ''List'' t;
          t = replace ''l.ist'' ''List'' t;
          t = replace ''lnt'' ''int'' t;
          t = replace ''retum'' ''return'' t;
          t = re_sub operator_re spaced 0 None t;
          t = re_sub line_number_re (\<lambda>m. []) 0 None t
      in strip t)"

subsection \<open>\<open>_detect_language\<close>\<close>

definition found :: "regex \<Rightarrow> string \<Rightarrow> bool" where
  "found r s = (re_search r s \<noteq> None)"

text \<open>\<open>\(.*\)\<close>\<close>

definition parens :: regex where
  "parens = cat [Chr CHR ''('', Star Dot, Chr CHR '')'']"

text \<open>\<open>def\s+\w+\s*\(.*\)\s*:\<close> and \<open>class\s+\w+\s*:\<close>\<close>

definition py_def_re :: regex where
  "py_def_re = cat [lit ''def'', Plus ws, Plus wd, Star ws, parens, Star ws, Chr CHR '':'']"

definition py_class_re :: regex where
  "py_class_re = cat [lit ''class'', Plus ws, Plus wd, Star ws, Chr CHR '':'']"

text \<open>\<open>public\s+(static\s+)?(class|interface|enum)\<close> and
  \<open>(public|private|protected)\s+\w+\s+\w+\s*\(.*\)\s*\{\<close>\<close>

definition java_type_re :: regex where
  "java_type_re = cat [lit ''public'', Plus ws, Opt (Group 1 (cat [lit ''static'', Plus ws])),
     Group 2 (alts [lit ''class'', lit ''interface'', lit ''enum''])]"

definition java_method_detect_re :: regex where
  "java_method_detect_re = cat [Group 1 (alts [lit ''public'', lit ''private'', lit ''protected'']),
     Plus ws, Plus wd, Plus ws, Plus wd, Star ws, parens, Star ws, Chr CHR ''{'']"

text \<open>\<open>#include\<close>,
  \<open>(int|void|bool|char|float|double|long|short|class|struct)\s+\w+\s*\(.*\)\s*\{\<close> and \<open>std::\<close>\<close>

definition cpp_function_detect_re :: regex where
  "cpp_function_detect_re = cat [Group 1 (alts [lit ''int'', lit ''void'', lit ''bool'', lit ''char'',
       lit ''float'', lit ''double'', lit ''long'', lit ''short'', lit ''class'', lit ''struct'']),
     Plus ws, Plus wd, Star ws, parens, Star ws, Chr CHR ''{'']"

text \<open>\<open>function\s+\w+\s*\(.*\)\s*\{\<close> and \<open>const\s+\w+\s*=\<close> (also for \<open>var\<close> and \<open>let\<close>)\<close>

definition js_function_detect_re :: regex where
  "js_function_detect_re = cat [lit ''function'', Plus ws, Plus wd, Star ws, parens, Star ws, Chr CHR ''{'']"

definition js_assign_re :: "string \<Rightarrow> regex" where
  "js_assign_re kw = cat [lit kw, Plus ws, Plus wd, Star ws, Chr CHR ''='']"

definition detect_language :: "string \<Rightarrow> string" where
  "detect_language code_text =
     (if found py_def_re code_text \<or> found py_class_re code_text then ''python''
      else if found java_type_re code_text \<or> found java_method_detect_re code_text then ''java''
      else if found (lit ''#include'') code_text \<or> found cpp_function_detect_re code_text
              \<or> found (lit ''std::'') code_text then ''cpp''
      else if found js_function_detect_re code_text \<or> found (js_assign_re ''const'') code_text
              \<or> found (js_assign_re ''var'') code_text \<or> found (js_assign_re ''let'') code_text
           then ''javascript''
      else if contains ''{'' code_text \<and> contains ''}'' code_text
           then (if contains ''public'' code_text \<or> contains ''private'' code_text then ''java''
                 else ''cpp'')
      else if contains '':'' code_text \<and> contains ''def'' code_text then ''python''
      else ''unknown'')"


subsection \<open>The parameter loop\<close>

text \<open>
  \<open>_parse_python\<close>, \<open>_parse_java\<close> and \<open>_parse_cpp\<close> run the same loop over
  \<open>params_text + ','\<close>, with their own pair of brackets and their own pattern for one
  parameter. The loop state is \<open>depth\<close>, \<open>current_param\<close> and \<open>result['parameters']\<close>;
  \<open>decompose\<close> is what the loop does with a completed, stripped, non-empty parameter.
\<close>

type_synonym loop_state = "int \<times> string \<times> param list"

definition complete_param :: "(string \<Rightarrow> param list) \<Rightarrow> string \<Rightarrow> param list" where
  "complete_param decompose current_param =
     (let param = strip current_param in if param \<noteq> [] then decompose param else [])"

definition loop_step :: "char \<Rightarrow> char \<Rightarrow> (string \<Rightarrow> param list) \<Rightarrow> loop_state \<Rightarrow> char \<Rightarrow> loop_state" where
  "loop_step opn cls decompose st ch =
     (case st of (depth, current_param, params) \<Rightarrow>
        if ch = CHR '','' \<and> depth = 0
        then (depth, [], params @ complete_param decompose current_param)
        else ((if ch = opn then depth + 1 else if ch = cls then depth - 1 else depth),
              current_param @ [ch], params))"

definition param_loop :: "char \<Rightarrow> char \<Rightarrow> (string \<Rightarrow> param list) \<Rightarrow> string \<Rightarrow> param list" where
  "param_loop opn cls decompose params_text =
     (if params_text \<noteq> []
      then snd (snd (foldl (loop_step opn cls decompose) (0, [], []) (params_text @ '','')))
      else [])"

text \<open>\<open>m.group(i) if m.group(i) else None\<close>\<close>

definition group_opt :: "rmatch \<Rightarrow> nat \<Rightarrow> string option" where
  "group_opt m i = (case group m i of None \<Rightarrow> None | Some g \<Rightarrow> if g = [] then None else Some g)"

subsection \<open>\<open>_parse_python\<close>\<close>

text \<open>\<open>class\s+(\w+)(?:\(.*\))?\s*:\<close>\<close>

definition py_class_context_re :: regex where
  "py_class_context_re = cat [lit ''class'', Plus ws, Group 1 (Plus wd), Opt parens, Star ws, Chr CHR '':'']"

text \<open>\<open>def\s+(\w+)\s*\((.*?)\)(?:\s*->\s*([^:]*))?\s*:\<close>\<close>

definition py_func_re :: regex where
  "py_func_re = cat [lit ''def'', Plus ws, Group 1 (Plus wd), Star ws,
     Chr CHR ''('', Group 2 (StarLazy Dot), Chr CHR '')'',
     Opt (cat [Star ws, lit ''->'', Star ws, Group 3 (Star (NSet [Ch CHR '':'']))]),
     Star ws, Chr CHR '':'']"

text \<open>\<open>(\w+)(?:\s*:\s*([^=]*))?(?:\s*=\s*(.*))?\<close>\<close>

definition py_param_re :: regex where
  "py_param_re = cat [Group 1 (Plus wd),
     Opt (cat [Star ws, Chr CHR '':'', Star ws, Group 2 (Star (NSet [Ch CHR ''='']))]),
     Opt (cat [Star ws, Chr CHR ''='', Star ws, Group 3 (Star Dot)])]"

definition python_param :: "string \<Rightarrow> param list" where
  "python_param param =
     (case re_match py_param_re param of
        None \<Rightarrow> []
      | Some m \<Rightarrow> [\<lparr>p_name = group_or m 1 [],
                     p_type = (case group_opt m 2 of Some g \<Rightarrow> strip g | None \<Rightarrow> []),
                     p_default = group_opt m 3\<rparr>])"

definition with_class :: "regex \<Rightarrow> string \<Rightarrow> code_info" where
  "with_class class_re code_text =
     (case re_search class_re code_text of
        None \<Rightarrow> empty_result
      | Some class_match \<Rightarrow> empty_result\<lparr>class_context := whole class_match\<rparr>)"

definition parse_python :: "string \<Rightarrow> code_info" where
  "parse_python code_text =
     (let result = with_class py_class_context_re code_text in
      case re_search py_func_re code_text of
        None \<Rightarrow> result
      | Some func_match \<Rightarrow>
          result\<lparr>function_name := group_or func_match 1 [],
                 parameters := param_loop CHR ''['' CHR '']'' python_param (group_or func_match 2 []),
                 return_type := (case group_opt func_match 3 of Some g \<Rightarrow> strip g | None \<Rightarrow> []),
                 function_signature := whole func_match\<rparr>)"

subsection \<open>\<open>_parse_java\<close>\<close>

definition access :: regex where
  "access = alts [lit ''public'', lit ''private'', lit ''protected'']"

text \<open>\<open>[\w,\s]+\<close>\<close>

definition name_list :: regex where
  "name_list = Plus (Set [WordC, Ch CHR '','', SpaceC])"

text \<open>\<open>(?:<.*>)?\<close>\<close>

definition generic_args :: regex where
  "generic_args = Opt (cat [Chr CHR ''<'', Star Dot, Chr CHR ''>''])"

text \<open>\<open>(?:public|private|protected)?\s*class\s+(\w+)(?:\s+extends\s+\w+)?(?:\s+implements\s+[\w,\s]+)?\s*\{\<close>\<close>

definition java_class_re :: regex where
  "java_class_re = cat [Opt access, Star ws, lit ''class'', Plus ws, Group 1 (Plus wd),
     Opt (cat [Plus ws, lit ''extends'', Plus ws, Plus wd]),
     Opt (cat [Plus ws, lit ''implements'', Plus ws, name_list]),
     Star ws, Chr CHR ''{'']"

text \<open>\<open>(?:public|private|protected)?\s*(?:static\s+)?(\w+(?:<.*>)?)\s+(\w+)\s*\((.*?)\)\s*(?:throws\s+[\w,\s]+)?\s*\{\<close>\<close>

definition java_method_re :: regex where
  "java_method_re = cat [Opt access, Star ws, Opt (cat [lit ''static'', Plus ws]),
     Group 1 (cat [Plus wd, generic_args]), Plus ws, Group 2 (Plus wd), Star ws,
     Chr CHR ''('', Group 3 (StarLazy Dot), Chr CHR '')'', Star ws,
     Opt (cat [lit ''throws'', Plus ws, name_list]), Star ws, Chr CHR ''{'']"

text \<open>\<open>([\w<>[\],\s]+)\s+(\w+)\<close>\<close>

definition java_param_re :: regex where
  "java_param_re = cat [
     Group 1 (Plus (Set [WordC, Ch CHR ''<'', Ch CHR ''>'', Ch CHR ''['', Ch CHR '']'', Ch CHR '','', SpaceC])),
     Plus ws, Group 2 (Plus wd)]"

definition java_param :: "string \<Rightarrow> param list" where
  "java_param param =
     (case re_match java_param_re param of
        None \<Rightarrow> []
      | Some m \<Rightarrow> [\<lparr>p_name = group_or m 2 [], p_type = strip (group_or m 1 []), p_default = None\<rparr>])"

definition parse_java :: "string \<Rightarrow> code_info" where
  "parse_java code_text =
     (let result = with_class java_class_re code_text in
      case re_search java_method_re code_text of
        None \<Rightarrow> result
      | Some method_match \<Rightarrow>
          result\<lparr>return_type := group_or method_match 1 [],
                 function_name := group_or method_match 2 [],
                 parameters := param_loop CHR ''<'' CHR ''>'' java_param (group_or method_match 3 []),
                 function_signature := whole method_match\<rparr>)"

subsection \<open>\<open>_parse_cpp\<close>\<close>

text \<open>\<open>(?:class|struct)\s+(\w+)(?:\s*:\s*(?:public|private|protected)\s+\w+)?\s*\{\<close>\<close>

definition cpp_class_re :: regex where
  "cpp_class_re = cat [alts [lit ''class'', lit ''struct''], Plus ws, Group 1 (Plus wd),
     Opt (cat [Star ws, Chr CHR '':'', Star ws, access, Plus ws, Plus wd]),
     Star ws, Chr CHR ''{'']"

text \<open>\<open>[\w:]+\<close>\<close>

definition scoped_name :: regex where
  "scoped_name = Plus (Set [WordC, Ch CHR '':''])"

text \<open>\<open>([\w:]+(?:<.*>)?(?:\s+[\w:]+)*)\s+(\w+)\s*\((.*?)\)(?:\s*const)?\s*(?:noexcept)?\s*(?:->.*?)?\s*\{\<close>\<close>

definition cpp_func_re :: regex where
  "cpp_func_re = cat [
     Group 1 (cat [scoped_name, generic_args, Star (cat [Plus ws, scoped_name])]),
     Plus ws, Group 2 (Plus wd), Star ws,
     Chr CHR ''('', Group 3 (StarLazy Dot), Chr CHR '')'',
     Opt (cat [Star ws, lit ''const'']), Star ws, Opt (lit ''noexcept''), Star ws,
     Opt (cat [lit ''->'', StarLazy Dot]), Star ws, Chr CHR ''{'']"

text \<open>\<open>([\w<>[\]:,\s&*]+)\s+(\w+)(?:\s*=\s*(.*))?\<close>\<close>

definition cpp_param_re :: regex where
  "cpp_param_re = cat [
     Group 1 (Plus (Set [WordC, Ch CHR ''<'', Ch CHR ''>'', Ch CHR ''['', Ch CHR '']'', Ch CHR '':'',
                         Ch CHR '','', SpaceC, Ch CHR ''&'', Ch CHR ''*''])),
     Plus ws, Group 2 (Plus wd),
     Opt (cat [Star ws, Chr CHR ''='', Star ws, Group 3 (Star Dot)])]"

definition cpp_param :: "string \<Rightarrow> param list" where
  "cpp_param param =
     (case re_match cpp_param_re param of
        None \<Rightarrow> []
      | Some m \<Rightarrow> [\<lparr>p_name = group_or m 2 [], p_type = strip (group_or m 1 []),
                     p_default = group_opt m 3\<rparr>])"

definition parse_cpp :: "string \<Rightarrow> code_info" where
  "parse_cpp code_text =
     (let result = with_class cpp_class_re code_text in
      case re_search cpp_func_re code_text of
        None \<Rightarrow> result
      | Some func_match \<Rightarrow>
          result\<lparr>return_type := group_or func_match 1 [],
                 function_name := group_or func_match 2 [],
                 parameters := param_loop CHR ''<'' CHR ''>'' cpp_param (group_or func_match 3 []),
                 function_signature := whole func_match\<rparr>)"


subsection \<open>\<open>_parse_javascript\<close> and \<open>_parse_generic\<close>\<close>

text \<open>\<open>s.split(c)\<close> and the two halves of \<open>s.split(c, 1)\<close> for a text that contains \<open>c\<close>.\<close>

fun split_on :: "char \<Rightarrow> string \<Rightarrow> string list" where
  "split_on c [] = [[]]"
| "split_on c (x # xs) =
     (if x = c then [] # split_on c xs
      else case split_on c xs of [] \<Rightarrow> [[x]] | y # ys \<Rightarrow> (x # y) # ys)"

definition before_first :: "char \<Rightarrow> string \<Rightarrow> string" where
  "before_first c s = takeWhile (\<lambda>x. x \<noteq> c) s"

definition after_first :: "char \<Rightarrow> string \<Rightarrow> string" where
  "after_first c s = tl (dropWhile (\<lambda>x. x \<noteq> c) s)"

text \<open>\<open>class\s+(\w+)(?:\s+extends\s+\w+)?\s*\{\<close>\<close>

definition js_class_re :: regex where
  "js_class_re = cat [lit ''class'', Plus ws, Group 1 (Plus wd),
     Opt (cat [Plus ws, lit ''extends'', Plus ws, Plus wd]), Star ws, Chr CHR ''{'']"

text \<open>\<open>function\s+(\w+)\s*\((.*?)\)\s*\{\<close>\<close>

definition js_func_re :: regex where
  "js_func_re = cat [lit ''function'', Plus ws, Group 1 (Plus wd), Star ws,
     Chr CHR ''('', Group 2 (StarLazy Dot), Chr CHR '')'', Star ws, Chr CHR ''{'']"

text \<open>\<open>(?:const|let|var)\s+(\w+)\s*=\s*(?:\((.*?)\)|(\w+))\s*=>\s*\{?\<close>\<close>

definition js_arrow_re :: regex where
  "js_arrow_re = cat [alts [lit ''const'', lit ''let'', lit ''var''], Plus ws, Group 1 (Plus wd),
     Star ws, Chr CHR ''='', Star ws,
     alts [cat [Chr CHR ''('', Group 2 (StarLazy Dot), Chr CHR '')''], Group 3 (Plus wd)],
     Star ws, lit ''=>'', Star ws, Opt (Chr CHR ''{'')]"

text \<open>\<open>(\w+)\s*\((.*?)\)\s*\{\<close>\<close>

definition js_method_re :: regex where
  "js_method_re = cat [Group 1 (Plus wd), Star ws,
     Chr CHR ''('', Group 2 (StarLazy Dot), Chr CHR '')'', Star ws, Chr CHR ''{'']"

text \<open>The three attempts, each with the number of groups of its pattern (\<open>len(m.groups())\<close>).\<close>

definition js_func_match :: "string \<Rightarrow> (rmatch \<times> nat) option" where
  "js_func_match code_text =
     (case re_search js_func_re code_text of
        Some m \<Rightarrow> Some (m, 2)
      | None \<Rightarrow>
          (case re_search js_arrow_re code_text of
             Some m \<Rightarrow> Some (m, 3)
           | None \<Rightarrow>
               (case re_search js_method_re code_text of
                  Some m \<Rightarrow> Some (m, 2)
                | None \<Rightarrow> None)))"

definition js_param :: "string \<Rightarrow> param list" where
  "js_param piece =
     (let param = strip piece in
      if param \<noteq> [] then
        (if CHR ''='' \<in> set param
         then [\<lparr>p_name = strip (before_first CHR ''='' param), p_type = [],
                 p_default = Some (strip (after_first CHR ''='' param))\<rparr>]
         else [\<lparr>p_name = param, p_type = [], p_default = None\<rparr>])
      else [])"

definition parse_javascript :: "string \<Rightarrow> code_info" where
  "parse_javascript code_text =
     (let result = with_class js_class_re code_text in
      case js_func_match code_text of
        None \<Rightarrow> result
      | Some (func_match, n) \<Rightarrow>
          (let params_text = (case group_opt func_match 2 of
                                Some g \<Rightarrow> g
                              | None \<Rightarrow> if n > 2 then group_or func_match 3 [] else [])
           in result\<lparr>function_name := group_or func_match 1 [],
                      parameters := (if params_text \<noteq> []
                                     then concat (map js_param (split_on CHR '','' params_text))
                                     else []),
                      function_signature := whole func_match\<rparr>))"

text \<open>\<open>(?:function|def|void|int|bool|string|char|float|double)\s+(\w+)\s*\((.*?)\)\<close>\<close>

definition generic_func_re :: regex where
  "generic_func_re = cat [alts [lit ''function'', lit ''def'', lit ''void'', lit ''int'', lit ''bool'',
       lit ''string'', lit ''char'', lit ''float'', lit ''double''],
     Plus ws, Group 1 (Plus wd), Star ws, Chr CHR ''('', Group 2 (StarLazy Dot), Chr CHR '')'']"

definition generic_param :: "string \<Rightarrow> param list" where
  "generic_param piece =
     (let param = strip piece in
      if param \<noteq> [] then [\<lparr>p_name = param, p_type = [], p_default = None\<rparr>] else [])"

definition parse_generic :: "string \<Rightarrow> code_info" where
  "parse_generic code_text =
     (case re_search generic_func_re code_text of
        None \<Rightarrow> empty_result
      | Some func_match \<Rightarrow>
          (let params_text = group_or func_match 2 []
           in empty_result\<lparr>function_name := group_or func_match 1 [],
                            parameters := (if params_text \<noteq> []
                                           then concat (map generic_param (split_on CHR '','' params_text))
                                           else []),
                            function_signature := whole func_match\<rparr>))"

subsection \<open>\<open>CodeParser.parse\<close>\<close>

definition parse :: "string \<Rightarrow> code_info" where
  "parse code_text =
     (if code_text = [] then
        \<lparr>language = ''unknown'', function_signature = [], function_name = [],
         parameters = [], return_type = [], class_context = []\<rparr>
      else
        (let code_text = clean_code_text code_text;
             language = detect_language code_text;
             result = (if language = ''python'' then parse_python code_text
                       else if language = ''java'' then parse_java code_text
                       else if language = ''cpp'' then parse_cpp code_text
                       else if language = ''javascript'' then parse_javascript code_text
                       else parse_generic code_text)
         in result\<lparr>language := language\<rparr>))"


section \<open>The problem parser (\<open>desktop_app/parsing/problem_parser.py\<close>)\<close>

record example =
  ex_input :: string
  ex_output :: string
  ex_explanation :: string

record problem_info =
  title :: string
  description :: string
  examples :: "example list"
  constraints :: "string list"

text \<open>\<open>str.isupper\<close> of one character and \<open>str.lower\<close>, for the code points below 256.\<close>

definition upper_code :: "int \<Rightarrow> bool" where
  "upper_code n = (between 65 90 n \<or> between 192 214 n \<or> between 216 222 n)"

definition is_upper :: "char \<Rightarrow> bool" where
  "is_upper c = upper_code (code_point c)"

definition lower_char :: "char \<Rightarrow> char" where
  "lower_char c = (if is_upper c then char_of (code_point c + 32) else c)"

definition lower :: "string \<Rightarrow> string" where
  "lower s = map lower_char s"

abbreviation newline :: regex where "newline \<equiv> Chr (CHR 0x0A)"
abbreviation digit :: regex where "digit \<equiv> Set [DigitC]"

subsection \<open>\<open>_clean_text\<close>\<close>

text \<open>\<open>\n{3,}\<close> and \<open>Example\s*(\d)\s*:\<close> (replaced by \<open>Example \1:\<close>)\<close>

definition blank_lines_re :: regex where
  "blank_lines_re = cat [newline, newline, newline, Star newline]"

definition example_number_re :: regex where
  "example_number_re = cat [lit ''Example'', Star ws, Group 1 digit, Star ws, Chr CHR '':'']"

definition clean_text :: "string \<Rightarrow> string" where
  "clean_text text =
     (let t = re_sub blank_lines_re (\<lambda>m. [CHR 0x0A, CHR 0x0A]) 0 None text;
          t = replace ''Example|:'' ''Example:'' t;
          t = replace ''Example |:'' ''Example:'' t;
          t = replace ''Input|:'' ''Input:'' t;
          t = replace ''Output|:'' ''Output:'' t;
          t = replace ''Constraints|:'' ''Constraints:'' t;
          t = re_sub example_number_re (\<lambda>m. ''Example '' @ group_or m 1 [] @ '':'') 0 None t
      in strip t)"

subsection \<open>\<open>_extract_title\<close>\<close>

text \<open>\<open>(?:\d+\.\s*)?\<close> and \<open>(?:\n|$)\<close>\<close>

definition number_prefix :: regex where
  "number_prefix = Opt (cat [Plus digit, Chr CHR ''.'', Star ws])"

definition line_end :: regex where
  "line_end = alts [newline, Eol]"

text \<open>\<open>^(?:\d+\.\s*)?([A-Z][A-Za-z0-9\s\-]+)(?:\n|$)\<close>\<close>

definition title_re :: regex where
  "title_re = cat [Start, number_prefix,
     Group 1 (cat [Set [Rng CHR ''A'' CHR ''Z''],
                   Plus (Set [Rng CHR ''A'' CHR ''Z'', Rng CHR ''a'' CHR ''z'', Rng CHR ''0'' CHR ''9'',
                              SpaceC, Ch CHR ''-''])]),
     line_end]"

definition looks_like_title :: "string \<Rightarrow> bool" where
  "looks_like_title line =
     (line \<noteq> [] \<and> length line < 50 \<and> is_upper (hd line) \<and>
      \<not> (\<exists>header \<in> set [''example'', ''input:'', ''output:'', ''constraints:'']. contains header (lower line)))"

definition extract_title :: "string \<Rightarrow> string" where
  "extract_title text =
     (case re_search title_re text of
        Some m \<Rightarrow> strip (group_or m 1 [])
      | None \<Rightarrow>
          (let lines = split_on (CHR 0x0A) text in
           case find looks_like_title (map strip lines) of
             Some line \<Rightarrow> line
           | None \<Rightarrow> (case lines of [] \<Rightarrow> [] | l # _ \<Rightarrow> l)))"

subsection \<open>\<open>_extract_examples\<close>\<close>

text \<open>\<open>Example\s*\d+:?\<close> and \<open>(?=Example\s*\d+:|Constraints:|$)\<close>\<close>

definition example_head :: regex where
  "example_head = cat [lit ''Example'', Star ws, Plus digit, Opt (Chr CHR '':'')]"

definition example_stop :: regex where
  "example_stop = Look (alts [cat [lit ''Example'', Star ws, Plus digit, Chr CHR '':''],
                              lit ''Constraints:'', Eol])"

text \<open>\<open>Example\s*\d+:?(.*?)(?=Example\s*\d+:|Constraints:|$)\<close> with \<open>re.DOTALL\<close>\<close>

definition example_re :: regex where
  "example_re = cat [example_head, Group 1 (StarLazy Any), example_stop]"

text \<open>\<open>Input:?\s*(.*?)(?=Output|$)\<close>, \<open>Output:?\s*(.*?)(?=Explanation|$)\<close> and
  \<open>Explanation:?\s*(.*?)$\<close>, each with \<open>re.DOTALL\<close>\<close>

definition input_re :: regex where
  "input_re = cat [lit ''Input'', Opt (Chr CHR '':''), Star ws, Group 1 (StarLazy Any),
                   Look (alts [lit ''Output'', Eol])]"

definition output_re :: regex where
  "output_re = cat [lit ''Output'', Opt (Chr CHR '':''), Star ws, Group 1 (StarLazy Any),
                    Look (alts [lit ''Explanation'', Eol])]"

definition explanation_re :: regex where
  "explanation_re = cat [lit ''Explanation'', Opt (Chr CHR '':''), Star ws, Group 1 (StarLazy Any), Eol]"

text \<open>\<open>m.group(1).strip() if m else ""\<close>\<close>

definition field :: "regex \<Rightarrow> string \<Rightarrow> string" where
  "field r example_text =
     (case re_search r example_text of Some m \<Rightarrow> strip (group_or m 1 []) | None \<Rightarrow> [])"

definition example_of :: "rmatch \<Rightarrow> example" where
  "example_of m =
     (let example_text = strip (group_or m 1 [])
      in \<lparr>ex_input = field input_re example_text,
          ex_output = field output_re example_text,
          ex_explanation = field explanation_re example_text\<rparr>)"

definition extract_examples :: "string \<Rightarrow> example list" where
  "extract_examples text = map example_of (finditer example_re None text)"

subsection \<open>\<open>_extract_constraints\<close>\<close>

text \<open>\<open>Constraints:?(.*?)$\<close> with \<open>re.DOTALL\<close>, and \<open>\n+|\<bullet>|\*\<close> (the bullet U+2022 is no
  code point below 256, so its alternative never matches in this model and is left out)\<close>

definition constraints_re :: regex where
  "constraints_re = cat [lit ''Constraints'', Opt (Chr CHR '':''), Group 1 (StarLazy Any), Eol]"

definition bullet_re :: regex where
  "bullet_re = alts [Plus newline, Chr CHR ''*'']"

definition extract_constraints :: "string \<Rightarrow> string list" where
  "extract_constraints text =
     (case re_search constraints_re text of
        None \<Rightarrow> []
      | Some m \<Rightarrow>
          filter (\<lambda>line. line \<noteq> [])
            (map strip (re_split bullet_re None [] (strip (group_or m 1 [])))))"

subsection \<open>\<open>_extract_description\<close> and \<open>ProblemParser.parse\<close>\<close>

text \<open>\<open>^(?:\d+\.\s*)?\<close>, the escaped title and \<open>(?:\n|$)\<close>\<close>

definition title_line_re :: "string \<Rightarrow> regex" where
  "title_line_re t = cat [Start, number_prefix, lit t, line_end]"

text \<open>\<open>Example\s*\d+:?.*?(?=Example\s*\d+:|Constraints:|$)\<close> and \<open>Constraints:?.*?$\<close>,
  each with \<open>re.DOTALL\<close>\<close>

definition example_block_re :: regex where
  "example_block_re = cat [example_head, StarLazy Any, example_stop]"

definition constraints_block_re :: regex where
  "constraints_block_re = cat [lit ''Constraints'', Opt (Chr CHR '':''), StarLazy Any, Eol]"

definition extract_description :: "string \<Rightarrow> string \<Rightarrow> string" where
  "extract_description text t =
     (let d = text;
          d = (if t \<noteq> [] then strip (re_sub (title_line_re t) (\<lambda>m. []) 1 None d) else d);
          d = strip (re_sub example_block_re (\<lambda>m. []) 0 None d);
          d = strip (re_sub constraints_block_re (\<lambda>m. []) 0 None d)
      in d)"

definition problem_parse :: "string \<Rightarrow> problem_info" where
  "problem_parse text =
     (if text = [] then \<lparr>title = [], description = [], examples = [], constraints = []\<rparr>
      else
        (let text = clean_text text;
             t = extract_title text;
             es = extract_examples text;
             cs = extract_constraints text;
             d = extract_description text t
         in \<lparr>title = t, description = d, examples = es, constraints = cs\<rparr>))"


section \<open>Exceptions\<close>

text \<open>
  What a call raises: an exception of the \<open>Exception\<close> hierarchy (\<open>cv2.error\<close>,
  \<open>ValueError\<close>, \<open>IndexError\<close>, the errors of \<open>pytesseract\<close>), which \<open>except Exception\<close>
  catches, or one outside of it (\<open>KeyboardInterrupt\<close>, \<open>SystemExit\<close>), which it does not.
  A fallible call returns \<open>Inl\<close> of what it raised or \<open>Inr\<close> of its result.
\<close>

datatype raised = Exception string | BaseException string

text \<open>\<open>try: ... except Exception: return d\<close>\<close>

definition except_Exception :: "raised + 'a \<Rightarrow> 'a \<Rightarrow> raised + 'a" where
  "except_Exception body d = (case body of Inl (Exception e) \<Rightarrow> Inr d | _ \<Rightarrow> body)"

section \<open>The OCR engine (\<open>desktop_app/ocr/ocr_engine.py\<close>)\<close>

datatype text_type = PROBLEM_TEXT | CODE_TEXT | GENERAL_TEXT

definition configs :: "text_type \<Rightarrow> string" where
  "configs t = (case t of
       PROBLEM_TEXT \<Rightarrow> ''--psm 6 --oem 3''
     | CODE_TEXT \<Rightarrow> ''--psm 6 --oem 3 -c preserve_interword_spaces=1''
     | GENERAL_TEXT \<Rightarrow> ''--psm 3 --oem 3'')"

definition code_char_whitelist :: string where
  "code_char_whitelist =
     ''ABCDEFGHIJKLMNOPQRSTUVWXYZabcdefghijklmnopqrstuvwxyz0123456789+-*/=<>:;,.()[]{}!?''
     @ [CHR 0x27, CHR 0x22, CHR 0x5C] @ ''|&^%$#@~`''"

text \<open>The configuration \<open>extract_text\<close> hands to Tesseract.\<close>

definition ocr_config :: "text_type \<Rightarrow> string" where
  "ocr_config t =
     (if t = CODE_TEXT
      then configs t @ '' -c tessedit_char_whitelist='' @ [CHR 0x27] @ code_char_whitelist @ [CHR 0x27]
      else configs t)"

text \<open>
  \<open>OCREngine.extract_text\<close>. The engine is given by \<open>self.lang\<close>, by \<open>preprocess_image\<close>
  (OpenCV calls, outside the \<open>try\<close>) and by \<open>pytesseract.image_to_string\<close> (inside it).
\<close>

record 'img ocr_engine =
  self_lang :: string
  preprocess_image :: "'img \<Rightarrow> text_type \<Rightarrow> raised + 'img"
  image_to_string :: "'img \<Rightarrow> string \<Rightarrow> string \<Rightarrow> raised + string"

definition extract_text :: "'img ocr_engine \<Rightarrow> 'img \<Rightarrow> text_type \<Rightarrow> string option \<Rightarrow> raised + string" where
  "extract_text self img t lang =
     (let lang = (case lang of None \<Rightarrow> self_lang self | Some l \<Rightarrow> l) in
      case preprocess_image self img t of
        Inl e \<Rightarrow> Inl e
      | Inr preprocessed \<Rightarrow>
          except_Exception (image_to_string self preprocessed lang (ocr_config t)) [])"

section \<open>The image processor (\<open>desktop_app/preprocessing/image_processor.py\<close>)\<close>

datatype region_type = PROBLEM | CODE | UNKNOWN

text \<open>
  A box is \<open>(x, y, w, h)\<close>. A single-channel image is the list of its rows; the images
  handed to the processor are of an abstract type \<open>'img\<close>, contours of a type \<open>'cnt\<close> and
  polygon vertices of a type \<open>'pt\<close>. The calls into OpenCV are the fields of \<open>cv2\<close>:
  \<^item> \<open>cvt_gray\<close>: \<open>cvtColor(image, COLOR_BGR2GRAY)\<close> for three channels, else \<open>image.copy()\<close>;
  \<^item> \<open>adaptive_threshold\<close>, \<open>gaussian_blur\<close>, \<open>canny\<close>, \<open>find_contours\<close>: the calls of
    these names with the arguments of the source;
  \<^item> \<open>contour_area\<close>, \<open>bounding_rect\<close>: \<open>contourArea\<close> and \<open>boundingRect\<close>;
  \<^item> \<open>approx_poly\<close>: \<open>approxPolyDP(c, 0.02 * arcLength(c, True), True)\<close>;
  \<^item> \<open>warp_quad\<close>: lines 331 to 366 of the source, the floating-point computation that
    orders the four vertices, warps the image and yields the warped image when the ratio of
    the aspect ratios lies strictly between 0.7 and 1.3, and nothing otherwise.
  A 64-bit float is taken as the real number it denotes. The area of a contour is such a
  number; \<open>min_area = 0.01 * h * w\<close> is computed as the source computes it, with the float
  nearest to 0.01 and a rounding after each product. The projection threshold
  \<open>np.mean(h_projection) * 0.5\<close> is computed in the reals, which gives the same gap rows as
  the floats whenever the sum of all pixel values is below \<open>2 ^ 53\<close>: a row sum \<open>p\<close> and the
  total \<open>S\<close> of \<open>n\<close> rows have \<open>2 * p\<close> and \<open>S / n\<close> at least \<open>1 / n\<close> apart when they differ,
  more than the rounding of the quotient moves it.
\<close>

type_synonym box = "int \<times> int \<times> int \<times> int"
type_synonym gray = "nat list list"
type_synonym regions = "(region_type \<times> box) list"

record ('img, 'cnt, 'pt) cv2 =
  cvt_gray :: "'img \<Rightarrow> raised + gray"
  adaptive_threshold :: "gray \<Rightarrow> raised + gray"
  gaussian_blur :: "gray \<Rightarrow> raised + gray"
  canny :: "gray \<Rightarrow> raised + gray"
  find_contours :: "gray \<Rightarrow> raised + 'cnt list"
  contour_area :: "'cnt \<Rightarrow> real"
  bounding_rect :: "'cnt \<Rightarrow> box"
  approx_poly :: "'cnt \<Rightarrow> 'pt list"
  warp_quad :: "'img \<Rightarrow> 'pt list \<Rightarrow> raised + 'img option"

text \<open>\<open>h, w = gray_image.shape[:2]\<close>\<close>

definition shape :: "gray \<Rightarrow> nat \<times> nat" where
  "shape g = (case g of [] \<Rightarrow> (0, 0) | row # _ \<Rightarrow> (length g, length row))"

definition box_y :: "box \<Rightarrow> int" where
  "box_y b = (case b of (x, y, w, h) \<Rightarrow> y)"

text \<open>A box lies within an image of \<open>h\<close> rows and \<open>w\<close> columns; a box is non-degenerate.\<close>

definition inside :: "nat \<Rightarrow> nat \<Rightarrow> box \<Rightarrow> bool" where
  "inside h w b = (case b of (x, y, bw, bh) \<Rightarrow>
     0 \<le> x \<and> 0 \<le> y \<and> 0 \<le> bw \<and> 0 \<le> bh \<and> x + bw \<le> int w \<and> y + bh \<le> int h)"

definition non_degenerate :: "box \<Rightarrow> bool" where
  "non_degenerate b = (case b of (x, y, bw, bh) \<Rightarrow> 0 < bw \<and> 0 < bh)"

subsection \<open>The projection profile\<close>

text \<open>\<open>np.diff\<close>, \<open>np.where(a == v)[0]\<close>, the subtraction of two one-dimensional arrays with
  broadcasting, \<open>np.argmax\<close> (the first index of the maximum) and indexing.\<close>

fun np_diff :: "int list \<Rightarrow> int list" where
  "np_diff (a # b # xs) = (b - a) # np_diff (b # xs)"
| "np_diff xs = []"

definition np_where :: "int list \<Rightarrow> int \<Rightarrow> int list" where
  "np_where a v = map int (filter (\<lambda>i. a ! i = v) [0..<length a])"

definition np_sub :: "int list \<Rightarrow> int list \<Rightarrow> raised + int list" where
  "np_sub a b =
     (if length a = length b then Inr (map (\<lambda>(x, y). x - y) (zip a b))
      else if length a = 1 then Inr (map (\<lambda>y. hd a - y) b)
      else if length b = 1 then Inr (map (\<lambda>x. x - hd b) a)
      else Inl (Exception ''ValueError''))"

fun argmax_from :: "int \<Rightarrow> nat \<Rightarrow> nat \<Rightarrow> int list \<Rightarrow> nat" where
  "argmax_from best bi i [] = bi"
| "argmax_from best bi i (x # xs) =
     (if best < x then argmax_from x i (Suc i) xs else argmax_from best bi (Suc i) xs)"

definition np_argmax :: "int list \<Rightarrow> nat" where
  "np_argmax a = (case a of [] \<Rightarrow> 0 | x # xs \<Rightarrow> argmax_from x 0 1 xs)"

definition getitem :: "int list \<Rightarrow> nat \<Rightarrow> raised + int" where
  "getitem a i = (if i < length a then Inr (a ! i) else Inl (Exception ''IndexError''))"

text \<open>\<open>gaps = h_projection < np.mean(h_projection) * 0.5\<close>, as 0 and 1\<close>

definition gap_rows :: "nat list \<Rightarrow> int list" where
  "gap_rows h_projection =
     (let threshold = (real (sum_list h_projection) / real (length h_projection)) * 0.5
      in map (\<lambda>p. if real p < threshold then 1 else 0) h_projection)"

text \<open>Method 2 of \<open>_analyze_layout\<close>: the split at the longest gap, if there is one.\<close>

definition projection_split :: "nat \<Rightarrow> nat \<Rightarrow> gray \<Rightarrow> raised + regions" where
  "projection_split h w thresh =
     (let h_projection = map sum_list thresh;
          gaps = gap_rows h_projection;
          gap_starts = np_where (np_diff gaps) 1;
          gap_ends = np_where (np_diff gaps) (- 1)
      in if length gap_starts > 0 \<and> length gap_ends > 0 then
           (case np_sub gap_ends gap_starts of
              Inl e \<Rightarrow> Inl e
            | Inr gap_lengths \<Rightarrow>
                if length gap_lengths > 0 then
                  (let max_gap_idx = np_argmax gap_lengths in
                   case getitem gap_starts max_gap_idx of
                     Inl e \<Rightarrow> Inl e
                   | Inr s \<Rightarrow>
                       (case getitem gap_ends max_gap_idx of
                          Inl e \<Rightarrow> Inl e
                        | Inr e \<Rightarrow>
                            (let split_y = (s + e) div 2
                             in Inr [(PROBLEM, (0, 0, int w, split_y)),
                                     (CODE, (0, split_y, int w, int h - split_y))])))
                else Inr [])
         else Inr [])"

subsection \<open>\<open>_analyze_layout\<close> and \<open>detect_regions\<close>\<close>

text \<open>
  64-bit floats. \<open>round53\<close> rounds a natural number to 53 significant bits, to the nearest
  and on a tie to the even one: the float of a Python \<open>int\<close>, and the rounding of a float
  product whose exact value is the number times a power of 2. The float \<open>0.01\<close> is
  \<open>hundredth / 2 ^ 59\<close>. So \<open>0.01 * h * w\<close>, evaluated from the left, is \<open>min_area h w\<close>
  (no image is large enough for the product to leave the range of the floats).
\<close>

fun bit_length :: "nat \<Rightarrow> nat" where
  "bit_length n = (if n = 0 then 0 else Suc (bit_length (n div 2)))"

declare bit_length.simps [simp del]

definition round53 :: "nat \<Rightarrow> nat" where
  "round53 n =
     (let b = bit_length n in
      if b \<le> 53 then n
      else (let s = b - 53; q = n div 2 ^ s; r = n mod 2 ^ s; half = 2 ^ (s - 1)
            in (if r < half \<or> (r = half \<and> even q) then q else q + 1) * 2 ^ s))"

definition hundredth :: nat where
  "hundredth = 5764607523034235"

definition min_area :: "nat \<Rightarrow> nat \<Rightarrow> real" where
  "min_area h w = real (round53 (round53 (hundredth * round53 h) * round53 w)) / 2 ^ 59"

definition valid_contours :: "('img, 'cnt, 'pt) cv2 \<Rightarrow> nat \<Rightarrow> nat \<Rightarrow> 'cnt list \<Rightarrow> 'cnt list" where
  "valid_contours cv h w contours = filter (\<lambda>cnt. contour_area cv cnt > min_area h w) contours"

definition layout_body :: "('img, 'cnt, 'pt) cv2 \<Rightarrow> gray \<Rightarrow> raised + regions" where
  "layout_body cv gray_image =
     (case shape gray_image of (h, w) \<Rightarrow>
        (case adaptive_threshold cv gray_image of
           Inl e \<Rightarrow> Inl e
         | Inr thresh \<Rightarrow>
             (case find_contours cv thresh of
                Inl e \<Rightarrow> Inl e
              | Inr contours \<Rightarrow>
                  (let valid = valid_contours cv h w contours in
                   if length valid \<ge> 2 then
                     (let sorted_contours = sort_key (\<lambda>c. box_y (bounding_rect cv c)) valid;
                          problem_box = bounding_rect cv (hd sorted_contours);
                          code_box = bounding_rect cv (last sorted_contours)
                      in Inr [(PROBLEM, problem_box), (CODE, code_box)])
                   else projection_split h w thresh))))"

definition analyze_layout :: "('img, 'cnt, 'pt) cv2 \<Rightarrow> gray \<Rightarrow> raised + regions" where
  "analyze_layout cv gray_image = except_Exception (layout_body cv gray_image) []"

definition detect_regions :: "('img, 'cnt, 'pt) cv2 \<Rightarrow> 'img \<Rightarrow> raised + regions" where
  "detect_regions cv img =
     (case cvt_gray cv img of
        Inl e \<Rightarrow> Inl e
      | Inr gray \<Rightarrow>
          (case analyze_layout cv gray of
             Inl e \<Rightarrow> Inl e
           | Inr regions \<Rightarrow>
               if regions = [] then
                 (case shape gray of (h, w) \<Rightarrow>
                    Inr [(PROBLEM, (0, 0, int w, int h div 2)),
                         (CODE, (0, int h div 2, int w, int h - int h div 2))])
               else Inr regions))"

subsection \<open>\<open>correct_perspective\<close>\<close>

text \<open>\<open>max(contours, key=cv2.contourArea)\<close>: the first contour of the largest area.\<close>

fun max_by :: "('a \<Rightarrow> real) \<Rightarrow> 'a \<Rightarrow> 'a list \<Rightarrow> 'a" where
  "max_by key best [] = best"
| "max_by key best (x # xs) = max_by key (if key best < key x then x else best) xs"

text \<open>Lines 308 to 317: the contours of the edge map.\<close>

definition edge_contours :: "('img, 'cnt, 'pt) cv2 \<Rightarrow> 'img \<Rightarrow> raised + 'cnt list" where
  "edge_contours cv img =
     (case cvt_gray cv img of
        Inl e \<Rightarrow> Inl e
      | Inr gray \<Rightarrow>
          (case gaussian_blur cv gray of
             Inl e \<Rightarrow> Inl e
           | Inr blurred \<Rightarrow>
               (case canny cv blurred of
                  Inl e \<Rightarrow> Inl e
                | Inr edges \<Rightarrow> find_contours cv edges)))"

definition correct_perspective :: "('img, 'cnt, 'pt) cv2 \<Rightarrow> 'img \<Rightarrow> raised + 'img" where
  "correct_perspective cv img =
     (case edge_contours cv img of
        Inl e \<Rightarrow> Inl e
      | Inr [] \<Rightarrow> Inr img
      | Inr (c # cs) \<Rightarrow>
          (let max_contour = max_by (contour_area cv) c cs;
               approx = approx_poly cv max_contour
           in if length approx = 4 then
                (case warp_quad cv img approx of
                   Inl e \<Rightarrow> Inl e
                 | Inr (Some warped) \<Rightarrow> Inr warped
                 | Inr None \<Rightarrow> Inr img)
              else Inr img))"


section \<open>Notions used in the statements and proofs\<close>

text \<open>
  Source-level parameters, in the words of the specification: a parameter has its commas
  only inside balanced brackets when, reading it with a depth that an opening bracket raises
  and a closing bracket lowers, no closing bracket meets depth 0, every comma is met at a
  positive depth, and the depth is 0 at the end. \<open>join\<close> is \<open>sep.join(ps)\<close>: the parameter
  list written with the separator between its parameters.
\<close>

fun nested_commas :: "char \<Rightarrow> char \<Rightarrow> nat \<Rightarrow> string \<Rightarrow> bool" where
  "nested_commas opn cls d [] = (d = 0)"
| "nested_commas opn cls d (c # cs) =
     (if c = CHR '','' then 0 < d \<and> nested_commas opn cls d cs
      else if c = opn then nested_commas opn cls (Suc d) cs
      else if c = cls then 0 < d \<and> nested_commas opn cls (d - 1) cs
      else nested_commas opn cls d cs)"

fun join :: "string \<Rightarrow> string list \<Rightarrow> string" where
  "join sep [] = []"
| "join sep [p] = p"
| "join sep (p # ps) = p @ sep @ join sep ps"

text \<open>
  \<open>param_text r i code_text\<close> is the parameter list a parser reads: group \<open>i\<close> of the first
  match of its function pattern \<open>r\<close>. A completed parameter \<open>decomposes\<close> when the loop adds
  an entry for it: its stripped text is not empty and matches the pattern for one parameter.
\<close>

definition param_text :: "regex \<Rightarrow> nat \<Rightarrow> string \<Rightarrow> string option" where
  "param_text r i code_text =
     (case re_search r code_text of None \<Rightarrow> None | Some m \<Rightarrow> Some (group_or m i []))"

definition decomposes :: "(string \<Rightarrow> param list) \<Rightarrow> string \<Rightarrow> bool" where
  "decomposes dec p = (complete_param dec p \<noteq> [])"

text \<open>
  A pattern is plain when it has no assertion (\<open>^\<close>, \<open>$\<close>, lookahead): what it matches
  depends on the characters it consumes only. The patterns that find the function in
  \<open>_parse_*\<close> are plain. \<open>chop n\<close> removes the last \<open>n\<close> characters of the text of a state, if
  it has as many; two states are the \<open>same\<close> when they differ in the character before the
  text at most; two matches have the \<open>same_groups\<close> when their text and groups agree.
\<close>

primrec plain :: "regex \<Rightarrow> bool" where
  "plain (Chr a) = True"
| "plain Dot = True"
| "plain (Set is) = True"
| "plain (NSet is) = True"
| "plain Any = True"
| "plain Eps = True"
| "plain Bol = False"
| "plain Start = False"
| "plain Eol = False"
| "plain (Look a) = False"
| "plain (Seq a b) = (plain a \<and> plain b)"
| "plain (Alt a b) = (plain a \<and> plain b)"
| "plain (Star a) = plain a"
| "plain (StarLazy a) = plain a"
| "plain (Group i a) = plain a"

definition chop :: "nat \<Rightarrow> mstate \<Rightarrow> mstate option" where
  "chop n st = (if n \<le> length (rest st)
                then Some (fst st, take (length (rest st) - n) (rest st), snd (snd st))
                else None)"

definition same :: "mstate \<Rightarrow> mstate \<Rightarrow> bool" where
  "same x y = (snd x = snd y)"

definition same_groups :: "rmatch \<Rightarrow> rmatch \<Rightarrow> bool" where
  "same_groups m m' = (whole m' = whole m \<and> groups m' = groups m)"

section \<open>Concrete instances\<close>

text \<open>An engine whose Tesseract call fails, and OpenCV stand-ins over single-channel
  images in which a contour is its area with its bounding box, \<open>find_contours\<close> yields a
  given list of contours and every polygon approximation is a triangle.\<close>

definition failing_engine :: "nat ocr_engine" where
  "failing_engine = \<lparr>self_lang = ''eng'', preprocess_image = (\<lambda>img t. Inr (img + 1)),
     image_to_string = (\<lambda>img lang config. Inl (Exception ''TesseractNotFoundError''))\<rparr>"

definition toy_cv :: "(real \<times> box) list \<Rightarrow> (gray, real \<times> box, nat) cv2" where
  "toy_cv contours = \<lparr>cvt_gray = Inr, adaptive_threshold = Inr, gaussian_blur = Inr, canny = Inr,
     find_contours = (\<lambda>g. Inr contours), contour_area = fst, bounding_rect = snd,
     approx_poly = (\<lambda>c. [0, 1, 2]), warp_quad = (\<lambda>img pts. Inr None)\<rparr>"

text \<open>A blank image of two rows and two columns, and three contours: a large one in the
  lower row, a speck, and a large one in the upper row.\<close>

definition blank :: gray where
  "blank = [[0, 0], [0, 0]]"

definition three_contours :: "(real \<times> box) list" where
  "three_contours = [(2, (0, 1, 2, 1)), (0.01, (1, 1, 1, 1)), (1, (0, 0, 2, 1))]"

section \<open>The code parser on the scenarios of the specification\<close>

lemma parse_python_stub:
  "parse ''class Solution:\<newline>    def twoSum(self, nums: List[int], target: int) -> List[int]:\<newline>        pass'' =
   \<lparr>language = ''python'',
    function_signature = ''def twoSum(self, nums: List[int], target: int) -> List[int]:'',
    function_name = ''twoSum'',
    parameters =
      [\<lparr>p_name = ''self'', p_type = [], p_default = None\<rparr>,
       \<lparr>p_name = ''nums'', p_type = ''List[int]'', p_default = None\<rparr>,
       \<lparr>p_name = ''target'', p_type = ''int'', p_default = None\<rparr>],
    return_type = ''List[int]'', class_context = ''class Solution:''\<rparr>"
  by code_simp

text \<open>
  C4. For the Python stub \<open>class Solution:\<close>, \<open>def twoSum(self, nums: List[int], target: int)
  -> List[int]:\<close>, \<open>pass\<close> (three lines), \<open>CodeParser.parse\<close> returns the language
  \<open>python\<close>, the function name \<open>twoSum\<close>, the return type \<open>List[int]\<close> and the parameters
  \<open>self\<close> (no type), \<open>nums\<close> of type \<open>List[int]\<close> and \<open>target\<close> of type \<open>int\<close>, in this order
  and each without a default.
\<close>

theorem parse_python_two_sum:
  "language (parse ''class Solution:\<newline>    def twoSum(self, nums: List[int], target: int) -> List[int]:\<newline>        pass'') = ''python''
   \<and> function_name (parse ''class Solution:\<newline>    def twoSum(self, nums: List[int], target: int) -> List[int]:\<newline>        pass'') = ''twoSum''
   \<and> return_type (parse ''class Solution:\<newline>    def twoSum(self, nums: List[int], target: int) -> List[int]:\<newline>        pass'') = ''List[int]''
   \<and> parameters (parse ''class Solution:\<newline>    def twoSum(self, nums: List[int], target: int) -> List[int]:\<newline>        pass'') =
       [\<lparr>p_name = ''self'', p_type = [], p_default = None\<rparr>,
        \<lparr>p_name = ''nums'', p_type = ''List[int]'', p_default = None\<rparr>,
        \<lparr>p_name = ''target'', p_type = ''int'', p_default = None\<rparr>]"
  by (simp only: parse_python_stub code_info.simps simp_thms)

text \<open>
  C1. The specification expects that the Java stub
  \<open>public int[] twoSum(int[] nums, int target) {\<close> is parsed as language \<open>java\<close>, function
  \<open>twoSum\<close>, return type \<open>int[]\<close> and the two parameters \<open>nums\<close> and \<open>target\<close>. The code
  returns the language \<open>unknown\<close> and empty fields instead: the return type of the
  detection and method patterns is \<open>\w+\<close>, which stops before \<open>[]\<close>, the text has no closing
  brace for the brace heuristic, and the generic pattern finds no \<open>int name(\<close>.
\<close>

theorem parse_java_array_stub:
  "parse ''public int[] twoSum(int[] nums, int target) {'' =
   \<lparr>language = ''unknown'', function_signature = [], function_name = [],
    parameters = [], return_type = [], class_context = []\<rparr>"
  by code_simp

text \<open>
  C3. For the empty string, \<open>ProblemParser.parse\<close> returns the empty title, description,
  examples and constraints, and \<open>CodeParser.parse\<close> returns the language \<open>unknown\<close> with
  every other field empty. Both return at their first test, before any call that could raise.
\<close>

theorem parsers_empty_input:
  "problem_parse [] = \<lparr>title = [], description = [], examples = [], constraints = []\<rparr>
   \<and> parse [] = \<lparr>language = ''unknown'', function_signature = [], function_name = [],
                  parameters = [], return_type = [], class_context = []\<rparr>"
  by (simp add: problem_parse_def parse_def)

section \<open>The OCR engine and the normalizer\<close>

text \<open>
  C9. For every region image and text type: when the call of the OCR engine
  (\<open>pytesseract.image_to_string\<close>, on the preprocessed image) raises an exception,
  \<open>extract_text\<close> returns the empty string and nothing is raised.
\<close>

theorem extract_text_engine_failure:
  assumes "preprocess_image self img t = Inr preprocessed"
    and "image_to_string self preprocessed (case lang of None \<Rightarrow> self_lang self | Some l \<Rightarrow> l)
           (ocr_config t) = Inl (Exception e)"
  shows "extract_text self img t lang = Inr []"
  using assms by (simp add: extract_text_def except_Exception_def)

theorem extract_text_engine_failure_witness:
  "preprocess_image failing_engine 7 CODE_TEXT = Inr 8
   \<and> image_to_string failing_engine 8 (self_lang failing_engine) (ocr_config CODE_TEXT)
       = Inl (Exception ''TesseractNotFoundError'')
   \<and> extract_text failing_engine 7 CODE_TEXT None = Inr []"
  using extract_text_engine_failure [of failing_engine 7 CODE_TEXT 8 None "''TesseractNotFoundError''"]
  by (simp add: failing_engine_def)

text \<open>
  C7. For every image whose edge map has no contours, or whose largest contour is not
  approximated by a polygon of exactly four vertices, \<open>correct_perspective\<close> returns the
  image it was given, and returns it as a result, not as an error.
\<close>

theorem correct_perspective_identity:
  assumes "edge_contours cv img = Inr cs"
    and "cs = [] \<or> length (approx_poly cv (max_by (contour_area cv) (hd cs) (tl cs))) \<noteq> 4"
  shows "correct_perspective cv img = Inr img"
  using assms by (cases cs) (simp_all add: correct_perspective_def Let_def)

theorem correct_perspective_identity_witness:
  "edge_contours (toy_cv [(4, (0, 0, 2, 2))]) [[0, 255], [255, 0]] = Inr [(4, (0, 0, 2, 2))]
   \<and> length (approx_poly (toy_cv [(4, (0, 0, 2, 2))])
        (max_by (contour_area (toy_cv [(4, (0, 0, 2, 2))])) (4, (0, 0, 2, 2)) [])) \<noteq> 4
   \<and> correct_perspective (toy_cv [(4, (0, 0, 2, 2))]) [[0, 255], [255, 0]] = Inr [[0, 255], [255, 0]]"
  using correct_perspective_identity [of "toy_cv [(4, (0, 0, 2, 2))]" "[[0, 255], [255, 0]]" "[(4, (0, 0, 2, 2))]"]
  by (simp add: toy_cv_def edge_contours_def)


section \<open>The segmenter\<close>

lemma sorted_hd_le: "sorted ys \<Longrightarrow> y \<in> set ys \<Longrightarrow> hd ys \<le> (y::'a::linorder)"
  by (cases ys) auto

lemma sorted_le_last: "sorted ys \<Longrightarrow> y \<in> set ys \<Longrightarrow> (y::'a::linorder) \<le> last ys"
  by (induction ys) (auto split: if_splits)

lemma sort_key_ends:
  assumes "xs \<noteq> []"
  shows "hd (sort_key f xs) \<in> set xs" and "last (sort_key f xs) \<in> set xs"
    and "d \<in> set xs \<Longrightarrow> f (hd (sort_key f xs)) \<le> f d"
    and "d \<in> set xs \<Longrightarrow> f d \<le> f (last (sort_key f xs))"
proof -
  let ?ys = "sort_key f xs"
  have ne: "?ys \<noteq> []"
    using assms by (metis length_0_conv length_sort)
  have st: "set ?ys = set xs" by simp
  have so: "sorted (map f ?ys)" by (rule sorted_sort_key)
  show "hd ?ys \<in> set xs" using ne st hd_in_set by blast
  show "last ?ys \<in> set xs" using ne st last_in_set by blast
  show "f (hd ?ys) \<le> f d" if "d \<in> set xs"
  proof -
    have "f d \<in> set (map f ?ys)" using that st by simp
    from sorted_hd_le [OF so this] show ?thesis by (simp add: hd_map ne)
  qed
  show "f d \<le> f (last ?ys)" if "d \<in> set xs"
  proof -
    have "f d \<in> set (map f ?ys)" using that st by simp
    from sorted_le_last [OF so this] show ?thesis by (simp add: last_map ne)
  qed
qed

text \<open>The minimal area as the floats give it: exact for 2 by 2, just below 14.5 for 29 by 50.\<close>

lemma bit_length_numeral:
  "bit_length (numeral (Num.Bit0 n)) = Suc (bit_length (numeral n))"
  "bit_length (numeral (Num.Bit1 n)) = Suc (bit_length (numeral n))"
  "bit_length (Suc 0) = Suc 0" "bit_length 1 = Suc 0" "bit_length 0 = 0"
  by (simp_all add: bit_length.simps [of "numeral (Num.Bit0 n)"] bit_length.simps [of "numeral (Num.Bit1 n)"]
        bit_length.simps [of "Suc 0"] bit_length.simps [of 0] numeral_Bit0_div_2 numeral_Bit1_div_2)

lemma min_area_2_2: "min_area 2 2 = 4 * 5764607523034235 / 2 ^ 59"
  by (simp add: min_area_def round53_def hundredth_def Let_def bit_length_numeral)

lemma min_area_Suc_Suc: "min_area (Suc (Suc 0)) (Suc (Suc 0)) = 4 * 5764607523034235 / 2 ^ 59"
  using min_area_2_2 by (simp only: numeral_2_eq_2 [symmetric])

lemma min_area_29_50: "min_area 29 50 = 8358680908399639552 / 2 ^ 59 \<and> min_area 29 50 < 14.5"
  by (simp add: min_area_def round53_def hundredth_def Let_def bit_length_numeral)

text \<open>On 29 by 50 pixels a contour of area 14.5, one percent of the image, counts as valid.\<close>

lemma one_percent_contour_is_valid:
  "valid_contours (toy_cv cs) 29 50 [(14.5, (10, 4, 6, 4))] = [(14.5, (10, 4, 6, 4))]"
  by (simp add: valid_contours_def toy_cv_def min_area_29_50)

text \<open>
  C6. For every image on which the contour method finds at least two contours of more than
  1% of the image area, the box assigned to Problem is the bounding rectangle of a contour
  whose top coordinate is the smallest among these contours, and the box assigned to Code is
  the bounding rectangle of one whose top coordinate is the largest.
\<close>

theorem topmost_contour_is_problem:
  assumes "cvt_gray cv img = Inr gray_image"
    and "shape gray_image = (h, w)"
    and "adaptive_threshold cv gray_image = Inr thresh"
    and "find_contours cv thresh = Inr contours"
    and "2 \<le> length (valid_contours cv h w contours)"
  shows "\<exists>p c. p \<in> set (valid_contours cv h w contours) \<and> c \<in> set (valid_contours cv h w contours)
           \<and> detect_regions cv img = Inr [(PROBLEM, bounding_rect cv p), (CODE, bounding_rect cv c)]
           \<and> (\<forall>d \<in> set (valid_contours cv h w contours).
                  box_y (bounding_rect cv p) \<le> box_y (bounding_rect cv d)
                  \<and> box_y (bounding_rect cv d) \<le> box_y (bounding_rect cv c))"
proof -
  let ?valid = "valid_contours cv h w contours"
  let ?key = "\<lambda>c. box_y (bounding_rect cv c)"
  let ?p = "hd (sort_key ?key ?valid)" and ?c = "last (sort_key ?key ?valid)"
  have ne: "?valid \<noteq> []" using assms(5) by auto
  have body: "layout_body cv gray_image = Inr [(PROBLEM, bounding_rect cv ?p), (CODE, bounding_rect cv ?c)]"
    using assms by (simp add: layout_body_def Let_def)
  then have "detect_regions cv img = Inr [(PROBLEM, bounding_rect cv ?p), (CODE, bounding_rect cv ?c)]"
    using assms(1) by (simp add: detect_regions_def analyze_layout_def except_Exception_def)
  moreover have "?p \<in> set ?valid" and "?c \<in> set ?valid"
    using sort_key_ends(1,2) [OF ne] by blast+
  moreover have "\<forall>d \<in> set ?valid. ?key ?p \<le> ?key d \<and> ?key d \<le> ?key ?c"
    using sort_key_ends(3,4) [OF ne, of _ ?key] by blast
  ultimately show ?thesis by blast
qed

theorem topmost_contour_is_problem_witness:
  "cvt_gray (toy_cv three_contours) blank = Inr blank
   \<and> shape blank = (2, 2)
   \<and> adaptive_threshold (toy_cv three_contours) blank = Inr blank
   \<and> find_contours (toy_cv three_contours) blank = Inr three_contours
   \<and> 2 \<le> length (valid_contours (toy_cv three_contours) 2 2 three_contours)
   \<and> detect_regions (toy_cv three_contours) blank = Inr [(PROBLEM, (0, 0, 2, 1)), (CODE, (0, 1, 2, 1))]"
  using topmost_contour_is_problem [of "toy_cv three_contours" blank blank 2 2 blank three_contours]
  by (simp add: toy_cv_def three_contours_def blank_def shape_def valid_contours_def min_area_2_2 min_area_Suc_Suc
        detect_regions_def analyze_layout_def layout_body_def except_Exception_def box_y_def)

lemma length_np_diff: "length (np_diff xs) = length xs - 1"
  by (induction xs rule: np_diff.induct) auto

lemma np_where_bounds: "s \<in> set (np_where a v) \<Longrightarrow> 0 \<le> s \<and> s < int (length a)"
  by (auto simp: np_where_def)

lemma getitem_mem: "getitem a i = Inr s \<Longrightarrow> s \<in> set a"
  by (auto simp: getitem_def split: if_splits)

lemma length_gap_rows: "length (gap_rows p) = length p"
  by (simp add: gap_rows_def Let_def)

text \<open>The projection split cuts at a row between 0 and \<open>h - 2\<close>.\<close>

lemma projection_split_shape:
  assumes "projection_split h w thresh = Inr regions" and "length thresh = h"
  shows "regions = [] \<or> (\<exists>split_y. 0 \<le> split_y \<and> split_y + 2 \<le> int h \<and>
           regions = [(PROBLEM, (0, 0, int w, split_y)), (CODE, (0, split_y, int w, int h - split_y))])"
proof (cases "regions = []")
  case True
  then show ?thesis by simp
next
  case False
  let ?d = "np_diff (gap_rows (map sum_list thresh))"
  from assms(1) False obtain gl s e where
    s: "getitem (np_where ?d 1) (np_argmax gl) = Inr s" and
    e: "getitem (np_where ?d (- 1)) (np_argmax gl) = Inr e" and
    r: "regions = [(PROBLEM, (0, 0, int w, (s + e) div 2)),
                   (CODE, (0, (s + e) div 2, int w, int h - (s + e) div 2))]"
    by (auto simp: projection_split_def Let_def split: if_splits sum.splits)
  have len: "length ?d = h - 1"
    using assms(2) by (simp add: length_np_diff length_gap_rows)
  have "0 \<le> s \<and> s < int (h - 1)" "0 \<le> e \<and> e < int (h - 1)"
    using np_where_bounds getitem_mem [OF s] getitem_mem [OF e] len by metis+
  then have "0 \<le> (s + e) div 2 \<and> (s + e) div 2 + 2 \<le> int h"
    by auto
  with r show ?thesis by blast
qed

text \<open>
  C8, as the specification states it, asks every box returned by \<open>detect_regions\<close> to lie
  within the image and to have positive width and height, for every image of at least one
  row and one column. For an image of one row the half split returns a Problem box of
  height \<open>1 div 2 = 0\<close>.
\<close>

theorem half_split_of_one_row:
  "detect_regions (toy_cv []) [[0]] = Inr [(PROBLEM, (0, 0, 1, 0)), (CODE, (0, 0, 1, 1))]
   \<and> \<not> non_degenerate (0, 0, 1, 0)"
  by (simp add: toy_cv_def shape_def valid_contours_def detect_regions_def analyze_layout_def
        layout_body_def except_Exception_def projection_split_def gap_rows_def np_where_def
        non_degenerate_def)

text \<open>The projection split cuts at row 0 when the rows 0 and 2 carry ink and row 1 is a gap.\<close>

lemma gap_in_the_middle: "gap_rows [255, 0, 255] = [0, 1, 0]"
  by (simp add: gap_rows_def)

lemma projection_split_at_row_0:
  "projection_split 3 1 [[255], [0], [255]] = Inr [(PROBLEM, (0, 0, 1, 0)), (CODE, (0, 0, 1, 3))]"
  by (simp add: projection_split_def gap_in_the_middle np_where_def np_sub_def np_argmax_def
        getitem_def upt_conv_Cons)

text \<open>
  C8, amended. For every image of at least one row and one column, with a thresholded image
  of as many rows and with contour rectangles that lie within the image and are
  non-degenerate (what OpenCV delivers), every box returned by \<open>detect_regions\<close> lies within
  the image, and it is non-degenerate unless it is a Problem box \<open>(0, 0, w, 0)\<close>: the box
  above a split at row 0.
\<close>

theorem detect_regions_boxes:
  assumes gray: "cvt_gray cv img = Inr gray_image"
    and shape: "shape gray_image = (h, w)" and h: "1 \<le> h" and w: "1 \<le> w"
    and rows: "\<And>thresh. adaptive_threshold cv gray_image = Inr thresh \<Longrightarrow> length thresh = h"
    and rects: "\<And>thresh cs c. adaptive_threshold cv gray_image = Inr thresh \<Longrightarrow>
                  find_contours cv thresh = Inr cs \<Longrightarrow> c \<in> set cs \<Longrightarrow>
                  inside h w (bounding_rect cv c) \<and> non_degenerate (bounding_rect cv c)"
    and res: "detect_regions cv img = Inr regions"
  shows "\<forall>(t, b) \<in> set regions.
           inside h w b \<and> (non_degenerate b \<or> (t = PROBLEM \<and> b = (0, 0, int w, 0)))"
proof -
  let ?ok = "\<lambda>rs. \<forall>(t, b) \<in> set rs.
               inside h w b \<and> (non_degenerate b \<or> (t = PROBLEM \<and> b = (0, 0, int w, 0)))"
  let ?half = "[(PROBLEM, (0, 0, int w, int h div 2)), (CODE, (0, int h div 2, int w, int h - int h div 2))]"
  have half: "?ok ?half"
    using h w by (auto simp: inside_def non_degenerate_def)
  have split: "?ok rs" if "projection_split h w thresh = Inr rs" and "length thresh = h" for thresh rs
    using projection_split_shape [OF that] h w
    by (auto simp: inside_def non_degenerate_def)
  have body: "?ok rs" if b: "layout_body cv gray_image = Inr rs" for rs
  proof -
    let ?sorted = "\<lambda>contours. sort_key (\<lambda>c. box_y (bounding_rect cv c)) (valid_contours cv h w contours)"
    from b shape obtain thresh contours where
      th: "adaptive_threshold cv gray_image = Inr thresh" and
      co: "find_contours cv thresh = Inr contours" and
      rs: "(2 \<le> length (valid_contours cv h w contours) \<and>
            rs = [(PROBLEM, bounding_rect cv (hd (?sorted contours))),
                  (CODE, bounding_rect cv (last (?sorted contours)))])
           \<or> (\<not> 2 \<le> length (valid_contours cv h w contours) \<and> projection_split h w thresh = Inr rs)"
      by (auto simp: layout_body_def Let_def split: sum.splits if_splits)
    from rs show ?thesis
    proof
      assume c: "2 \<le> length (valid_contours cv h w contours) \<and>
            rs = [(PROBLEM, bounding_rect cv (hd (?sorted contours))),
                  (CODE, bounding_rect cv (last (?sorted contours)))]"
      let ?valid = "valid_contours cv h w contours"
      have ne: "?valid \<noteq> []" using c by auto
      have sub: "set ?valid \<subseteq> set contours" by (auto simp: valid_contours_def Let_def)
      have "hd (?sorted contours) \<in> set contours" "last (?sorted contours) \<in> set contours"
        using sort_key_ends(1,2) [OF ne] sub by blast+
      then have "inside h w (bounding_rect cv (hd (?sorted contours)))
                 \<and> non_degenerate (bounding_rect cv (hd (?sorted contours)))"
        "inside h w (bounding_rect cv (last (?sorted contours)))
                 \<and> non_degenerate (bounding_rect cv (last (?sorted contours)))"
        using rects [OF th co] by blast+
      with c show ?thesis by simp
    next
      assume "\<not> 2 \<le> length (valid_contours cv h w contours) \<and> projection_split h w thresh = Inr rs"
      then have "projection_split h w thresh = Inr rs" by blast
      from split [OF this rows [OF th]] show ?thesis .
    qed
  qed
  from res gray shape consider
      (fallback) "regions = ?half"
    | (found) "layout_body cv gray_image = Inr regions"
    by (auto simp: detect_regions_def analyze_layout_def except_Exception_def
             split: sum.splits raised.splits if_splits)
  then show ?thesis
  proof cases
    case fallback
    with half show ?thesis by simp
  next
    case found
    from body [OF this] show ?thesis .
  qed
qed

theorem detect_regions_boxes_witness:
  "cvt_gray (toy_cv three_contours) blank = Inr blank
   \<and> shape blank = (2, 2)
   \<and> adaptive_threshold (toy_cv three_contours) blank = Inr blank
   \<and> find_contours (toy_cv three_contours) blank = Inr three_contours
   \<and> detect_regions (toy_cv three_contours) blank = Inr [(PROBLEM, (0, 0, 2, 1)), (CODE, (0, 1, 2, 1))]
   \<and> inside 2 2 (0, 0, 2, 1) \<and> non_degenerate (0, 0, 2, 1)
   \<and> inside 2 2 (0, 1, 2, 1) \<and> non_degenerate (0, 1, 2, 1)"
proof -
  have 1: "cvt_gray (toy_cv three_contours) blank = Inr blank"
    by (simp add: toy_cv_def)
  have 2: "shape blank = (2, 2)"
    by (simp add: blank_def shape_def)
  have 3: "length thresh = 2" if "adaptive_threshold (toy_cv three_contours) blank = Inr thresh" for thresh
    using that by (auto simp: toy_cv_def blank_def)
  have 4: "inside 2 2 (bounding_rect (toy_cv three_contours) c)
           \<and> non_degenerate (bounding_rect (toy_cv three_contours) c)"
    if "adaptive_threshold (toy_cv three_contours) blank = Inr thresh"
      and "find_contours (toy_cv three_contours) thresh = Inr cs" and "c \<in> set cs" for thresh cs c
    using that by (auto simp: toy_cv_def three_contours_def inside_def non_degenerate_def)
  have 5: "detect_regions (toy_cv three_contours) blank = Inr [(PROBLEM, (0, 0, 2, 1)), (CODE, (0, 1, 2, 1))]"
    by (simp add: toy_cv_def three_contours_def blank_def shape_def valid_contours_def min_area_2_2 min_area_Suc_Suc
          detect_regions_def analyze_layout_def layout_body_def except_Exception_def box_y_def)
  have 6: "adaptive_threshold (toy_cv three_contours) blank = Inr blank"
    and 7: "find_contours (toy_cv three_contours) blank = Inr three_contours"
    by (simp_all add: toy_cv_def)
  from detect_regions_boxes [OF 1 2 _ _ 3 4 5]
  have "inside 2 2 (0, 0, 2, 1) \<and> non_degenerate (0, 0, 2, 1)
        \<and> inside 2 2 (0, 1, 2, 1) \<and> non_degenerate (0, 1, 2, 1)"
    by simp
  with 1 2 5 6 7 show ?thesis by blast
qed

section \<open>The parameter loop\<close>

text \<open>Within a parameter whose commas are nested, the loop only collects characters.\<close>

lemma loop_token:
  assumes "opn \<noteq> CHR '',''" and "cls \<noteq> CHR '',''" and "nested_commas opn cls d p"
  shows "foldl (loop_step opn cls dec) (int d, cur, res) p = (0, cur @ p, res)"
  using assms(3)
proof (induction p arbitrary: d cur)
  case Nil
  then show ?case by simp
next
  case (Cons c cs)
  show ?case
  proof (cases "c = CHR '',''")
    case True
    with Cons.prems have d: "0 < d" and n: "nested_commas opn cls d cs" by auto
    have "loop_step opn cls dec (int d, cur, res) c = (int d, cur @ [c], res)"
      using True d assms(1,2) by (simp add: loop_step_def)
    with Cons.IH [OF n] show ?thesis by simp
  next
    case False
    note nc = this
    show ?thesis
    proof (cases "c = opn")
      case True
      with nc Cons.prems have n: "nested_commas opn cls (Suc d) cs" by simp
      have "loop_step opn cls dec (int d, cur, res) c = (int (Suc d), cur @ [c], res)"
        using True nc by (simp add: loop_step_def)
      with Cons.IH [OF n] show ?thesis by simp
    next
      case False
      note no = this
      show ?thesis
      proof (cases "c = cls")
        case True
        with nc no Cons.prems have d: "0 < d" and n: "nested_commas opn cls (d - 1) cs" by auto
        have "loop_step opn cls dec (int d, cur, res) c = (int (d - 1), cur @ [c], res)"
          using True nc no d by (simp add: loop_step_def of_nat_diff)
        with Cons.IH [OF n] show ?thesis by simp
      next
        case False
        with nc no Cons.prems have n: "nested_commas opn cls d cs" by simp
        have "loop_step opn cls dec (int d, cur, res) c = (int d, cur @ [c], res)"
          using False nc no by (simp add: loop_step_def)
        with Cons.IH [OF n] show ?thesis by simp
      qed
    qed
  qed
qed

lemma loop_tokens:
  assumes "opn \<noteq> CHR '',''" and "cls \<noteq> CHR '',''" and "\<forall>p \<in> set ps. nested_commas opn cls 0 p"
  shows "foldl (loop_step opn cls dec) (0, [], res) (concat (map (\<lambda>p. p @ '','') ps))
         = (0, [], res @ concat (map (complete_param dec) ps))"
  using assms(3)
proof (induction ps arbitrary: res)
  case Nil
  then show ?case by simp
next
  case (Cons p ps)
  then have p: "nested_commas opn cls 0 p" and ps: "\<forall>q \<in> set ps. nested_commas opn cls 0 q"
    by simp_all
  have "foldl (loop_step opn cls dec) (0, [], res) (p @ '','') = (0, [], res @ complete_param dec p)"
    using loop_token [OF assms(1,2) p, of dec "[]" res] by (simp add: loop_step_def)
  with Cons.IH [OF ps, of "res @ complete_param dec p"] show ?case by simp
qed

lemma join_comma: "ps \<noteq> [] \<Longrightarrow> join '','' ps @ '','' = concat (map (\<lambda>p. p @ '','') ps)"
  by (induction "'',''" ps rule: join.induct) simp_all

lemma join_empty: "join '','' ps = [] \<Longrightarrow> ps = [] \<or> ps = [[]]"
  by (induction "'',''" ps rule: join.induct) simp_all

lemma complete_param_empty: "complete_param dec [] = []"
  by (simp add: complete_param_def strip_def)

lemma param_loop_tokens:
  assumes "opn \<noteq> CHR '',''" and "cls \<noteq> CHR '',''" and "\<forall>p \<in> set ps. nested_commas opn cls 0 p"
  shows "param_loop opn cls dec (join '','' ps) = concat (map (complete_param dec) ps)"
proof (cases "join '','' ps = []")
  case True
  with join_empty have "ps = [] \<or> ps = [[]]" by blast
  with True show ?thesis by (auto simp: param_loop_def complete_param_empty)
next
  case False
  then have "ps \<noteq> []" by auto
  with False loop_tokens [OF assms, of dec "[]"] show ?thesis
    by (simp add: param_loop_def join_comma)
qed

lemma at_most_one:
  assumes "dec \<in> {python_param, java_param, cpp_param}"
  shows "length (complete_param dec p) \<le> 1"
  using assms
  by (auto simp: complete_param_def python_param_def java_param_def cpp_param_def Let_def
           split: option.splits)

lemma parse_python_params:
  "param_text py_func_re 2 t = Some ptext \<Longrightarrow>
   parameters (parse_python t) = param_loop CHR ''['' CHR '']'' python_param ptext"
  by (auto simp: param_text_def parse_python_def Let_def split: option.splits)

lemma parse_java_params:
  "param_text java_method_re 3 t = Some ptext \<Longrightarrow>
   parameters (parse_java t) = param_loop CHR ''<'' CHR ''>'' java_param ptext"
  by (auto simp: param_text_def parse_java_def Let_def split: option.splits)

lemma parse_cpp_params:
  "param_text cpp_func_re 3 t = Some ptext \<Longrightarrow>
   parameters (parse_cpp t) = param_loop CHR ''<'' CHR ''>'' cpp_param ptext"
  by (auto simp: param_text_def parse_cpp_def Let_def split: option.splits)

lemma length_concat_filter:
  "(\<And>p. p \<in> set ps \<Longrightarrow> length (f p) \<le> 1) \<Longrightarrow>
   length (concat (map f ps)) = length (filter (\<lambda>p. f p \<noteq> []) ps)"
proof (induction ps)
  case Nil
  then show ?case by simp
next
  case (Cons p ps)
  then have "length (f p) \<le> 1" by simp
  then have "length (f p) = (if f p \<noteq> [] then 1 else 0)"
    by (cases "f p") simp_all
  with Cons show ?case by simp
qed

lemma loop_entries:
  assumes "(opn, cls) \<in> {(CHR ''['', CHR '']''), (CHR ''<'', CHR ''>'')}"
    and "dec \<in> {python_param, java_param, cpp_param}"
    and "\<forall>p \<in> set ps. nested_commas opn cls 0 p"
  shows "param_loop opn cls dec (join '','' ps) = concat (map (complete_param dec) ps)
         \<and> length (param_loop opn cls dec (join '','' ps)) = length (filter (decomposes dec) ps)"
proof -
  from assms(1) have "opn \<noteq> CHR '',''" and "cls \<noteq> CHR '',''" by auto
  from param_loop_tokens [OF this assms(3)]
  have eq: "param_loop opn cls dec (join '','' ps) = concat (map (complete_param dec) ps)" .
  have "length (concat (map (complete_param dec) ps)) = length (filter (\<lambda>p. complete_param dec p \<noteq> []) ps)"
    by (rule length_concat_filter) (rule at_most_one [OF assms(2)])
  with eq show ?thesis by (simp add: decomposes_def [abs_def])
qed

lemma star_args_text:
  "param_text py_func_re 2 ''def f(a, *xs: Tuple[int, str]):'' = Some ''a, *xs: Tuple[int, str]''"
  by code_simp

lemma star_args_parameters:
  "parameters (parse_python ''def f(a, *xs: Tuple[int, str]):'') = [\<lparr>p_name = ''a'', p_type = [], p_default = None\<rparr>]"
  by code_simp

text \<open>
  C5, as the specification states it: for every parameter list whose types have their commas
  only inside balanced brackets, the splitting of each language produces exactly one
  parameter per source-level parameter. The list \<open>a, *xs: Tuple[int, str]\<close> is of this kind
  and has two parameters; the loop of \<open>_parse_python\<close> separates it at its one top-level
  comma, and \<open>*xs: Tuple[int, str]\<close> does not match the pattern for one parameter, so the
  result has the single parameter \<open>a\<close>.
\<close>

theorem generic_star_parameter_dropped:
  "param_text py_func_re 2 ''def f(a, *xs: Tuple[int, str]):'' = Some (join '','' [''a'', '' *xs: Tuple[int, str]''])
   \<and> nested_commas CHR ''['' CHR '']'' 0 ''a''
   \<and> nested_commas CHR ''['' CHR '']'' 0 '' *xs: Tuple[int, str]''
   \<and> parameters (parse_python ''def f(a, *xs: Tuple[int, str]):'')
       = [\<lparr>p_name = ''a'', p_type = [], p_default = None\<rparr>]
   \<and> length (parameters (parse_python ''def f(a, *xs: Tuple[int, str]):''))
       \<noteq> length [''a'', '' *xs: Tuple[int, str]'']"
  by (simp add: star_args_text star_args_parameters)

lemma dict_text:
  "param_text py_func_re 2 ''def f(self, m: Dict[str, int], t: int):'' = Some ''self, m: Dict[str, int], t: int''"
  by code_simp

lemma dict_entries:
  "concat (map (complete_param python_param) [''self'', '' m: Dict[str, int]'', '' t: int'']) =
       [\<lparr>p_name = ''self'', p_type = [], p_default = None\<rparr>,
        \<lparr>p_name = ''m'', p_type = ''Dict[str, int]'', p_default = None\<rparr>,
        \<lparr>p_name = ''t'', p_type = ''int'', p_default = None\<rparr>]"
  by code_simp

text \<open>
  C5, amended. Let the parameter list read by \<open>_parse_python\<close>, \<open>_parse_java\<close> or
  \<open>_parse_cpp\<close> be written as source-level parameters separated by commas, each parameter
  with its commas only inside balanced brackets (\<open>[ ]\<close> for Python, \<open>< >\<close> for Java and C++).
  Then the parser separates the list at the commas between these parameters and at no comma
  inside brackets: its parameters are, in order, what the decomposition of each whole
  source-level parameter gives, which is exactly one entry for each parameter that matches
  the pattern of the language for one parameter, and no entry for the others.
\<close>

theorem parsers_split_at_top_level_commas:
  "((\<forall>p \<in> set ps. nested_commas CHR ''['' CHR '']'' 0 p)
      \<and> param_text py_func_re 2 code_text = Some (join '','' ps) \<longrightarrow>
    parameters (parse_python code_text) = concat (map (complete_param python_param) ps)
    \<and> length (parameters (parse_python code_text)) = length (filter (decomposes python_param) ps))
   \<and> ((\<forall>p \<in> set ps. nested_commas CHR ''<'' CHR ''>'' 0 p)
      \<and> param_text java_method_re 3 code_text = Some (join '','' ps) \<longrightarrow>
    parameters (parse_java code_text) = concat (map (complete_param java_param) ps)
    \<and> length (parameters (parse_java code_text)) = length (filter (decomposes java_param) ps))
   \<and> ((\<forall>p \<in> set ps. nested_commas CHR ''<'' CHR ''>'' 0 p)
      \<and> param_text cpp_func_re 3 code_text = Some (join '','' ps) \<longrightarrow>
    parameters (parse_cpp code_text) = concat (map (complete_param cpp_param) ps)
    \<and> length (parameters (parse_cpp code_text)) = length (filter (decomposes cpp_param) ps))"
  using loop_entries [of "CHR ''[''" "CHR '']''" python_param ps]
    loop_entries [of "CHR ''<''" "CHR ''>''" java_param ps]
    loop_entries [of "CHR ''<''" "CHR ''>''" cpp_param ps]
  by (auto simp: parse_python_params parse_java_params parse_cpp_params)

theorem parsers_split_at_top_level_commas_witness:
  "nested_commas CHR ''['' CHR '']'' 0 ''self''
   \<and> nested_commas CHR ''['' CHR '']'' 0 '' m: Dict[str, int]''
   \<and> nested_commas CHR ''['' CHR '']'' 0 '' t: int''
   \<and> param_text py_func_re 2 ''def f(self, m: Dict[str, int], t: int):''
       = Some (join '','' [''self'', '' m: Dict[str, int]'', '' t: int''])
   \<and> parameters (parse_python ''def f(self, m: Dict[str, int], t: int):'') =
       [\<lparr>p_name = ''self'', p_type = [], p_default = None\<rparr>,
        \<lparr>p_name = ''m'', p_type = ''Dict[str, int]'', p_default = None\<rparr>,
        \<lparr>p_name = ''t'', p_type = ''int'', p_default = None\<rparr>]"
proof -
  have h: "\<forall>p \<in> set [''self'', '' m: Dict[str, int]'', '' t: int'']. nested_commas CHR ''['' CHR '']'' 0 p"
    by simp
  have t: "param_text py_func_re 2 ''def f(self, m: Dict[str, int], t: int):''
           = Some (join '','' [''self'', '' m: Dict[str, int]'', '' t: int''])"
    by (simp add: dict_text)
  from parsers_split_at_top_level_commas [of "[''self'', '' m: Dict[str, int]'', '' t: int'']"
      "''def f(self, m: Dict[str, int], t: int):''"] h t
  have "parameters (parse_python ''def f(self, m: Dict[str, int], t: int):'')
        = concat (map (complete_param python_param) [''self'', '' m: Dict[str, int]'', '' t: int''])"
    by blast
  then have e: "parameters (parse_python ''def f(self, m: Dict[str, int], t: int):'') =
       [\<lparr>p_name = ''self'', p_type = [], p_default = None\<rparr>,
        \<lparr>p_name = ''m'', p_type = ''Dict[str, int]'', p_default = None\<rparr>,
        \<lparr>p_name = ''t'', p_type = ''int'', p_default = None\<rparr>]"
    by (simp only: dict_entries)
  have n: "nested_commas CHR ''['' CHR '']'' 0 ''self''"
    "nested_commas CHR ''['' CHR '']'' 0 '' m: Dict[str, int]''"
    "nested_commas CHR ''['' CHR '']'' 0 '' t: int''"
    by simp_all
  from n t e show ?thesis by blast
qed

lemma no_word_no_python_param:
  assumes "param = [] \<or> \<not> is_word (hd param)"
  shows "python_param param = []"
  using assms
  by (cases param) (simp_all add: python_param_def re_match_def py_param_re_def cat_def Plus_def)

lemma complete_non_identifier:
  assumes "strip current_param = [] \<or> \<not> is_word (hd (strip current_param))"
  shows "complete_param python_param current_param = []"
  using assms by (auto simp: complete_param_def Let_def no_word_no_python_param)

lemma parse_python_star_args:
  "parse ''def f(a, *args, **kwargs):'' =
   \<lparr>language = ''python'', function_signature = ''def f(a, *args, **kwargs):'',
    function_name = ''f'', parameters = [\<lparr>p_name = ''a'', p_type = [], p_default = None\<rparr>],
    return_type = [], class_context = []\<rparr>"
  by code_simp

text \<open>
  C10. In the loop of \<open>_parse_python\<close>, a parameter completed by a comma at depth 0 whose
  stripped text does not begin with a word character (as \<open>*args\<close> and \<open>**kwargs\<close>) adds
  nothing to the parameters. So \<open>def f(a, *args, **kwargs):\<close>, written with three
  parameters, is parsed with the single parameter \<open>a\<close>.
\<close>

theorem python_drops_non_identifier_params:
  "(strip current_param = [] \<or> \<not> is_word (hd (strip current_param)) \<longrightarrow>
      loop_step CHR ''['' CHR '']'' python_param (0, current_param, params) CHR '',''
      = (0, [], params))
   \<and> parameters (parse ''def f(a, *args, **kwargs):'') = [\<lparr>p_name = ''a'', p_type = [], p_default = None\<rparr>]
   \<and> length (parameters (parse ''def f(a, *args, **kwargs):'')) < length [''a'', '' *args'', '' **kwargs'']
   \<and> join '','' [''a'', '' *args'', '' **kwargs''] = ''a, *args, **kwargs''"
  by (simp add: loop_step_def complete_non_identifier parse_python_star_args)

theorem python_drops_non_identifier_params_witness:
  "\<not> is_word (hd (strip '' *args''))
   \<and> loop_step CHR ''['' CHR '']'' python_param
        (0, '' *args'', [\<lparr>p_name = ''a'', p_type = [], p_default = None\<rparr>]) CHR '',''
      = (0, [], [\<lparr>p_name = ''a'', p_type = [], p_default = None\<rparr>])"
proof -
  have s: "strip '' *args'' = ''*args''" by code_simp
  have w: "\<not> is_word (hd ''*args'')" by code_simp
  from python_drops_non_identifier_params [of "'' *args''" "[\<lparr>p_name = ''a'', p_type = [], p_default = None\<rparr>]"]
    s w show ?thesis by simp
qed

section \<open>Parsing the extracted signature again\<close>

subsection \<open>Every match leaves a suffix of the text\<close>

lemma rest_capture: "rest (capture i st y) = rest y"
  by (simp add: capture_def rest_def)

lemma one_suffix: "st' \<in> set (one P st) \<Longrightarrow> suffix (rest st') (rest st)"
  by (cases "(P, st)" rule: one.cases) (auto simp: rest_def suffix_def split: if_splits)

lemma star_suffix:
  assumes "\<And>x y. y \<in> set (f x) \<Longrightarrow> suffix (rest y) (rest x)"
  shows "st' \<in> set (star lazy fuel f st) \<Longrightarrow> suffix (rest st') (rest st)"
proof (induction fuel arbitrary: st)
  case Nil
  then show ?case by simp
next
  case (Cons x fuel)
  from Cons.prems consider "st' = st"
    | y where "y \<in> set (f st)" and "st' \<in> set (star lazy fuel f y)"
    by (auto split: if_splits)
  then show ?case
  proof cases
    case 1
    then show ?thesis by simp
  next
    case 2
    with Cons.IH assms show ?thesis by (meson suffix_order.trans)
  qed
qed

lemma ms_suffix: "st' \<in> set (ms r st) \<Longrightarrow> suffix (rest st') (rest st)"
proof (induction r arbitrary: st st')
  case (Seq a b)
  from Seq.prems obtain y where "y \<in> set (ms a st)" and "st' \<in> set (ms b y)"
    by auto
  with Seq.IH show ?case by (meson suffix_order.trans)
next
  case (Star a)
  then show ?case using star_suffix [of "ms a"] by simp
next
  case (StarLazy a)
  then show ?case using star_suffix [of "ms a"] by simp
next
  case (Group i a)
  from Group.prems obtain y where "y \<in> set (ms a st)" and "st' = capture i st y"
    by auto
  with Group.IH show ?case by (simp add: rest_capture)
qed (auto simp: one_suffix bol_def bos_def eol_def look_def split: if_splits)

lemma ms_length: "st' \<in> set (ms r st) \<Longrightarrow> length (rest st') \<le> length (rest st)"
  using ms_suffix suffix_length_le by blast


subsection \<open>Lists\<close>

lemma map_filter_append:
  "List.map_filter g (xs @ ys) = List.map_filter g xs @ List.map_filter g ys"
  by (simp add: List.map_filter_def)

lemma map_filter_none: "(\<And>x. x \<in> set xs \<Longrightarrow> g x = None) \<Longrightarrow> List.map_filter g xs = []"
  by (induction xs) (simp_all add: map_filter_simps)

lemma map_filter_concat:
  assumes "\<And>x. x \<in> set xs \<Longrightarrow>
             List.map_filter g (f x) = (case g x of Some x' \<Rightarrow> f' x' | None \<Rightarrow> [])"
  shows "List.map_filter g (concat (map f xs)) = concat (map f' (List.map_filter g xs))"
  using assms
  by (induction xs) (simp_all add: map_filter_append map_filter_simps split: option.splits)

lemma map_filter_filter:
  assumes "\<And>x x'. x \<in> set xs \<Longrightarrow> g x = Some x' \<Longrightarrow> P x = Q x'"
  shows "List.map_filter g (filter P xs) = filter Q (List.map_filter g xs)"
  using assms
  by (induction xs) (auto simp: map_filter_simps split: option.splits)

lemma map_filter_map:
  assumes "\<And>x. x \<in> set xs \<Longrightarrow> g (h x) = map_option h' (g x)"
  shows "List.map_filter g (map h xs) = map h' (List.map_filter g xs)"
  using assms
  by (induction xs) (auto simp: map_filter_simps split: option.splits)

subsection \<open>The bound of a repetition\<close>

lemma star_length:
  assumes "\<And>x y. y \<in> set (f x) \<Longrightarrow> length (rest y) \<le> length (rest x)"
  shows "st' \<in> set (star lazy fuel f st) \<Longrightarrow> length (rest st') \<le> length (rest st)"
proof (induction fuel arbitrary: st)
  case Nil
  then show ?case by simp
next
  case (Cons x fuel)
  from Cons.prems consider "st' = st"
    | y where "y \<in> set (f st)" and "st' \<in> set (star lazy fuel f y)"
    by (auto split: if_splits)
  then show ?case
  proof cases
    case 1
    then show ?thesis by simp
  next
    case 2
    with Cons.IH assms show ?thesis by (meson order_trans)
  qed
qed

lemma star_at_end:
  assumes "\<And>x y. y \<in> set (f x) \<Longrightarrow> length (rest y) \<le> length (rest x)"
    and "rest st = []"
  shows "star lazy fuel f st = [st]"
proof (cases fuel)
  case Nil
  then show ?thesis by simp
next
  case (Cons x fu)
  have "filter (advances st) (f st) = []"
    using assms by (auto simp: filter_empty_conv advances_def)
  with Cons show ?thesis by simp
qed

lemma star_fuel:
  assumes len: "\<And>x y. y \<in> set (f x) \<Longrightarrow> length (rest y) \<le> length (rest x)"
  shows "length (rest st) \<le> length fu1 \<Longrightarrow> length (rest st) \<le> length fu2 \<Longrightarrow>
         star lazy fu1 f st = star lazy fu2 f st"
proof (induction fu1 arbitrary: fu2 st)
  case Nil
  then have e: "rest st = []" by simp
  show ?case by (simp only: star_at_end [where f = f, OF len e])
next
  case (Cons x fu1)
  show ?case
  proof (cases fu2)
    case Nil
    with Cons.prems have e: "rest st = []" by simp
    show ?thesis by (simp only: star_at_end [where f = f, OF len e])
  next
    case c2: (Cons z fu2')
    have "star lazy fu1 f y = star lazy fu2' f y" if "y \<in> set (filter (advances st) (f st))" for y
    proof -
      from that have "length (rest y) < length (rest st)" by (simp add: advances_def)
      with Cons.prems c2 have "length (rest y) \<le> length fu1" "length (rest y) \<le> length fu2'"
        by simp_all
      then show ?thesis by (rule Cons.IH)
    qed
    then have m: "map (star lazy fu1 f) (filter (advances st) (f st))
                  = map (star lazy fu2' f) (filter (advances st) (f st))"
      by (simp cong: map_cong)
    show ?thesis by (simp only: c2 star.simps m)
  qed
qed

subsection \<open>Matching in a text that goes on\<close>

lemma chop_rest: "chop n st = Some st' \<Longrightarrow> n \<le> length (rest st) \<and> length (rest st') = length (rest st) - n"
  by (auto simp: chop_def rest_def split: if_splits)

lemma chop_shorter:
  assumes "chop n x = None" and "length (rest y) \<le> length (rest x)"
  shows "chop n y = None"
  using assms by (auto simp: chop_def split: if_splits)

lemma one_chop: "chop n st = Some st' \<Longrightarrow> List.map_filter (chop n) (one P st) = one P st'"
proof -
  assume a: "chop n st = Some st'"
  obtain p s c where st: "st = (p, s, c)" by (cases st)
  show ?thesis
  proof (cases s)
    case Nil
    with a st show ?thesis by (auto simp: chop_def rest_def map_filter_simps split: if_splits)
  next
    case (Cons x xs)
    show ?thesis
    proof (cases "n \<le> length xs")
      case True
      then have "take (Suc (length xs) - n) (x # xs) = x # take (length xs - n) xs"
        by (simp add: Suc_diff_le)
      with a st Cons True show ?thesis
        by (auto simp: chop_def rest_def map_filter_simps)
    next
      case False
      with a st Cons have "n = Suc (length xs)" by (auto simp: chop_def rest_def split: if_splits)
      with a st Cons show ?thesis
        by (auto simp: chop_def rest_def map_filter_simps)
    qed
  qed
qed

lemma chop_advances:
  assumes "chop n st = Some st'" and "chop n y = Some y'"
  shows "advances st y = advances st' y'"
  using chop_rest [OF assms(1)] chop_rest [OF assms(2)] by (auto simp: advances_def)

lemma star_chop:
  assumes F: "\<And>x x'. chop n x = Some x' \<Longrightarrow> List.map_filter (chop n) (f x) = f x'"
    and len: "\<And>x y. y \<in> set (f x) \<Longrightarrow> length (rest y) \<le> length (rest x)"
  shows "length (rest st) \<le> length fuel \<Longrightarrow> chop n st = Some st' \<Longrightarrow>
         List.map_filter (chop n) (star lazy fuel f st) = star lazy fuel f st'"
proof (induction fuel arbitrary: st st')
  case Nil
  then show ?case by (simp add: map_filter_simps)
next
  case (Cons x fuel)
  let ?ys = "filter (advances st) (f st)"
  have inner: "List.map_filter (chop n) (star lazy fuel f y)
               = (case chop n y of Some y' \<Rightarrow> star lazy fuel f y' | None \<Rightarrow> [])"
    if "y \<in> set ?ys" for y
  proof (cases "chop n y")
    case None
    have "chop n z = None" if "z \<in> set (star lazy fuel f y)" for z
      using chop_shorter [OF None star_length [OF len that]] .
    then have "List.map_filter (chop n) (star lazy fuel f y) = []"
      by (rule map_filter_none)
    with None show ?thesis by simp
  next
    case (Some y')
    from that have "length (rest y) < length (rest st)" by (simp add: advances_def)
    with Cons.prems(1) have "length (rest y) \<le> length fuel" by simp
    from Cons.IH [OF this Some] Some show ?thesis by simp
  qed
  have "List.map_filter (chop n) ?ys = filter (advances st') (List.map_filter (chop n) (f st))"
    by (rule map_filter_filter) (rule chop_advances [OF Cons.prems(2)])
  also have "\<dots> = filter (advances st') (f st')"
    by (simp add: F [OF Cons.prems(2)])
  finally have ys: "List.map_filter (chop n) ?ys = filter (advances st') (f st')" .
  have "List.map_filter (chop n) (concat (map (star lazy fuel f) ?ys))
        = concat (map (star lazy fuel f) (filter (advances st') (f st')))"
    using map_filter_concat [of ?ys "chop n" "star lazy fuel f" "star lazy fuel f", OF inner]
    by (simp add: ys)
  with Cons.prems(2) show ?case
    by (cases lazy) (simp_all add: map_filter_append map_filter_simps)
qed

lemma capture_chop:
  assumes "chop n st = Some st'" and "length (rest y) \<le> length (rest st)"
  shows "chop n (capture i st y) = map_option (capture i st') (chop n y)"
proof (cases "n \<le> length (rest y)")
  case False
  then show ?thesis by (simp add: chop_def rest_capture)
next
  case True
  from chop_rest [OF assms(1)] have n: "n \<le> length (rest st)"
    and l: "length (rest st') = length (rest st) - n" by simp_all
  have r: "rest st' = take (length (rest st) - n) (rest st)"
    using assms(1) by (auto simp: chop_def rest_def split: if_splits)
  have "length (rest st') - (length (rest y) - n) = length (rest st) - length (rest y)"
    using l n True assms(2) by simp
  moreover have "take (length (rest st) - length (rest y)) (rest st')
                 = take (length (rest st) - length (rest y)) (rest st)"
    using True by (simp add: r min_def)
  ultimately show ?thesis
    using True by (simp add: chop_def capture_def rest_def)
qed

lemma ms_chop_none:
  assumes "chop n st = None"
  shows "List.map_filter (chop n) (ms r st) = []"
  by (rule map_filter_none) (rule chop_shorter [OF assms ms_length])

lemma ms_chop:
  "plain r \<Longrightarrow> chop n st = Some st' \<Longrightarrow> List.map_filter (chop n) (ms r st) = ms r st'"
proof (induction r arbitrary: st st')
  case (Seq a b)
  have "List.map_filter (chop n) (ms b x) = (case chop n x of Some x' \<Rightarrow> ms b x' | None \<Rightarrow> [])" for x
    using Seq.IH(2) Seq.prems(1) ms_chop_none by (cases "chop n x") simp_all
  then have "List.map_filter (chop n) (concat (map (ms b) (ms a st)))
             = concat (map (ms b) (List.map_filter (chop n) (ms a st)))"
    by (intro map_filter_concat)
  with Seq.IH(1) [OF _ Seq.prems(2)] Seq.prems(1) show ?case by simp
next
  case (Alt a b)
  then show ?case by (simp add: map_filter_append)
next
  case (Star a)
  have step: "List.map_filter (chop n) (ms a x) = ms a x'" if "chop n x = Some x'" for x x'
    using Star.IH Star.prems(1) that by simp
  have len: "length (rest y) \<le> length (rest x)" if "y \<in> set (ms a x)" for x y
    using that by (rule ms_length)
  have "List.map_filter (chop n) (star False (rest st) (ms a) st) = star False (rest st) (ms a) st'"
    by (rule star_chop [where f = "ms a", OF step len _ Star.prems(2)]) simp_all
  also have "\<dots> = star False (rest st') (ms a) st'"
    using chop_rest [OF Star.prems(2)] by (intro star_fuel [where f = "ms a", OF len]) simp_all
  finally show ?case by simp
next
  case (StarLazy a)
  have step: "List.map_filter (chop n) (ms a x) = ms a x'" if "chop n x = Some x'" for x x'
    using StarLazy.IH StarLazy.prems(1) that by simp
  have len: "length (rest y) \<le> length (rest x)" if "y \<in> set (ms a x)" for x y
    using that by (rule ms_length)
  have "List.map_filter (chop n) (star True (rest st) (ms a) st) = star True (rest st) (ms a) st'"
    by (rule star_chop [where f = "ms a", OF step len _ StarLazy.prems(2)]) simp_all
  also have "\<dots> = star True (rest st') (ms a) st'"
    using chop_rest [OF StarLazy.prems(2)] by (intro star_fuel [where f = "ms a", OF len]) simp_all
  finally show ?case by simp
next
  case (Group i a)
  have "List.map_filter (chop n) (map (capture i st) (ms a st))
        = map (capture i st') (List.map_filter (chop n) (ms a st))"
    using capture_chop [OF Group.prems(2) ms_length] by (intro map_filter_map) simp
  with Group show ?case by simp
qed (simp_all add: one_chop map_filter_simps)


subsection \<open>The character before the text does not matter to a plain pattern\<close>

lemma list_all2_concat:
  "list_all2 (list_all2 R) xss yss \<Longrightarrow> list_all2 R (concat xss) (concat yss)"
  by (induction rule: list_all2_induct) (simp_all add: list_all2_appendI)

lemma list_all2_filter:
  assumes "list_all2 R xs ys" and "\<And>x y. R x y \<Longrightarrow> P x = Q y"
  shows "list_all2 R (filter P xs) (filter Q ys)"
  using assms by (induction rule: list_all2_induct) auto

lemma list_all2_bind:
  assumes "list_all2 R xs ys" and "\<And>x y. R x y \<Longrightarrow> list_all2 R (f x) (g y)"
  shows "list_all2 R (concat (map f xs)) (concat (map g ys))"
  using assms by (induction rule: list_all2_induct) (simp_all add: list_all2_appendI)

lemma same_refl: "same x x"
  by (simp add: same_def)

lemma same_advances: "same st st' \<Longrightarrow> same x y \<Longrightarrow> advances st x = advances st' y"
  by (simp add: same_def advances_def rest_def)

lemma one_same: "same x y \<Longrightarrow> list_all2 same (one P x) (one P y)"
proof -
  assume a: "same x y"
  obtain p s c where x: "x = (p, s, c)" by (cases x)
  with a obtain q where y: "y = (q, s, c)" by (cases y) (auto simp: same_def)
  show ?thesis unfolding x y by (cases s) (simp_all add: same_def)
qed

lemma star_same:
  assumes "\<And>x y. same x y \<Longrightarrow> list_all2 same (f x) (f y)"
  shows "same st st' \<Longrightarrow> list_all2 same (star lazy fuel f st) (star lazy fuel f st')"
proof (induction fuel arbitrary: st st')
  case Nil
  then show ?case by simp
next
  case (Cons x fuel)
  have "list_all2 same (filter (advances st) (f st)) (filter (advances st') (f st'))"
    using assms [OF Cons.prems] same_advances [OF Cons.prems] by (rule list_all2_filter)
  then have "list_all2 same (concat (map (star lazy fuel f) (filter (advances st) (f st))))
               (concat (map (star lazy fuel f) (filter (advances st') (f st'))))"
    using Cons.IH by (rule list_all2_bind)
  with Cons.prems show ?case
    by (cases lazy) (simp_all add: list_all2_appendI)
qed

lemma capture_same: "same st st' \<Longrightarrow> same x y \<Longrightarrow> same (capture i st x) (capture i st' y)"
  by (simp add: same_def capture_def rest_def)

lemma ms_same: "plain r \<Longrightarrow> same x y \<Longrightarrow> list_all2 same (ms r x) (ms r y)"
proof (induction r arbitrary: x y)
  case (Seq a b)
  have "list_all2 same (ms a x) (ms a y)"
    using Seq by simp
  moreover have "list_all2 same (ms b u) (ms b v)" if "same u v" for u v
    using Seq that by simp
  ultimately have "list_all2 same (concat (map (ms b) (ms a x))) (concat (map (ms b) (ms a y)))"
    by (rule list_all2_bind)
  then show ?case by simp
next
  case (Alt a b)
  then show ?case by (simp add: list_all2_appendI)
next
  case (Star a)
  then have "rest x = rest y" by (simp add: same_def rest_def)
  with Star star_same [where f = "ms a"] show ?case by simp
next
  case (StarLazy a)
  then have "rest x = rest y" by (simp add: same_def rest_def)
  with StarLazy star_same [where f = "ms a"] show ?case by simp
next
  case (Group i a)
  then have "list_all2 same (ms a x) (ms a y)" by simp
  then show ?case
    using capture_same [OF Group.prems(2)] by (simp add: list_all2_map1 list_all2_map2 list_all2_mono)
qed (simp_all add: one_same)

lemma ms_prev_empty: "plain r \<Longrightarrow> ms r (p, s, c) = [] \<longleftrightarrow> ms r (q, s, c) = []"
  using ms_same [of r "(p, s, c)" "(q, s, c)"] ms_same [of r "(q, s, c)" "(p, s, c)"]
  by (auto simp: same_def)

subsection \<open>Searching in the text of a match\<close>

lemma search_from_hit: "ms r (p, w, []) = st # ys \<Longrightarrow> search_from r p w = Some (mk_match w st)"
  by (cases w) simp_all

lemma search_from_finds:
  "search_from r p u = Some m \<Longrightarrow>
   \<exists>q s st ys. suffix s u \<and> ms r (q, s, []) = st # ys \<and> m = mk_match s st"
proof (induction r p u rule: search_from.induct)
  case (1 r p)
  show ?case
  proof (cases "ms r (p, [], [])")
    case Nil
    with 1 show ?thesis by simp
  next
    case (Cons st ys)
    with 1 have "m = mk_match [] st" by simp
    with Cons show ?thesis by blast
  qed
next
  case (2 r p x xs)
  show ?case
  proof (cases "ms r (p, x # xs, [])")
    case Nil
    with 2 obtain q s st ys where sx: "suffix s xs"
      and rest: "ms r (q, s, []) = st # ys" "m = mk_match s st"
      by auto
    from sx have "suffix s (x # xs)" by (simp add: suffix_Cons)
    with rest show ?thesis by blast
  next
    case (Cons st ys)
    with 2 have "m = mk_match (x # xs) st" by simp
    with Cons show ?thesis by blast
  qed
qed

lemma search_from_None:
  assumes "plain r"
  shows "search_from r p u = None \<longleftrightarrow> (\<forall>w. suffix w u \<longrightarrow> ms r (None, w, []) = [])"
proof (induction u arbitrary: p)
  case Nil
  show ?case using ms_prev_empty [OF assms, of p "[]" "[]" None]
    by (auto split: list.splits)
next
  case (Cons x xs)
  show ?case using ms_prev_empty [OF assms, of p "x # xs" "[]" None] Cons [of "Some x"]
    by (auto simp: suffix_Cons split: list.splits)
qed

lemma mk_match_split:
  assumes "st \<in> set (ms r (q, s, []))"
  shows "s = whole (mk_match s st) @ after (mk_match s st)"
proof -
  from ms_suffix [OF assms] obtain a where "s = a @ rest st"
    by (auto simp: suffix_def rest_def)
  then show ?thesis by (simp add: mk_match_def)
qed

text \<open>The text matched is a part of the text searched.\<close>

lemma search_from_part:
  assumes "search_from r p u = Some m"
  shows "\<exists>a. u = a @ whole m @ after m"
proof -
  from search_from_finds [OF assms] obtain q s st ys where
    s: "suffix s u" and ms: "ms r (q, s, []) = st # ys" and m: "m = mk_match s st" by blast
  from ms have "st \<in> set (ms r (q, s, []))" by simp
  from mk_match_split [OF this] s m show ?thesis by (auto simp: suffix_def)
qed

text \<open>A plain pattern matches the text of its match from end to end, with the same groups.\<close>

lemma search_in_match:
  assumes "plain r" and "re_search r u = Some m"
  shows "\<exists>m'. re_search r (whole m) = Some m' \<and> whole m' = whole m \<and> groups m' = groups m"
proof -
  from search_from_finds [OF assms(2) [unfolded re_search_def]] obtain q s st ys where
    ms: "ms r (q, s, []) = st # ys" and m: "m = mk_match s st" by blast
  from ms have mem: "st \<in> set (ms r (q, s, []))" by simp
  let ?n = "length (rest st)"
  have s: "s = whole m @ rest st"
    using mk_match_split [OF mem] m by (simp add: mk_match_def)
  then have c: "chop ?n (q, s, []) = Some (q, whole m, [])"
    by (simp add: chop_def rest_def)
  have e: "chop ?n st = Some (fst st, [], snd (snd st))"
    by (simp add: chop_def)
  have "ms r (q, whole m, []) = List.map_filter (chop ?n) (st # ys)"
    using ms_chop [OF assms(1) c] ms by simp
  then have "ms r (q, whole m, []) = (fst st, [], snd (snd st)) # List.map_filter (chop ?n) ys"
    by (simp add: map_filter_simps e)
  with ms_same [OF assms(1), of "(q, whole m, [])" "(None, whole m, [])"]
  obtain st' zs' where hit: "ms r (None, whole m, []) = st' # zs'" and sm: "same (fst st, [], snd (snd st)) st'"
    by (auto simp: same_def list_all2_Cons1)
  from sm have e2: "snd st' = ([], snd (snd st))"
    by (simp add: same_def)
  have "rest st' = []" and "snd (snd st') = groups m"
    using m by (simp_all add: e2 rest_def mk_match_def)
  with search_from_hit [OF hit] show ?thesis
    by (simp add: re_search_def mk_match_def)
qed

text \<open>A plain pattern that matches nowhere in a text matches nowhere in a part of it.\<close>

lemma search_in_part:
  assumes "plain r" and "re_search r (a @ v @ b) = None"
  shows "re_search r v = None"
proof -
  have "ms r (None, w, []) = []" if "suffix w v" for w
  proof -
    from that have "suffix (w @ b) (a @ v @ b)"
      by (auto simp: suffix_def)
    with assms have e: "ms r (None, w @ b, []) = []"
      by (simp add: re_search_def search_from_None)
    have "chop (length b) (None, w @ b, []) = Some (None, w, [])"
      by (simp add: chop_def rest_def)
    from ms_chop [OF assms(1) this] e show ?thesis by (simp add: map_filter_simps)
  qed
  with assms(1) show ?thesis by (simp add: re_search_def search_from_None)
qed


subsection \<open>Parsing the signature again\<close>

lemma plain_lit: "plain (lit s)"
  by (induction s) (simp_all add: lit_def)

lemma plain_patterns:
  "plain py_func_re" "plain java_method_re" "plain cpp_func_re" "plain js_func_re"
  "plain js_arrow_re" "plain js_method_re" "plain generic_func_re"
  by (simp_all add: py_func_re_def java_method_re_def cpp_func_re_def js_func_re_def js_arrow_re_def
        js_method_re_def generic_func_re_def cat_def Plus_def Opt_def access_def name_list_def
        generic_args_def scoped_name_def plain_lit)

lemma with_class_signature: "function_signature (with_class class_re t) = []"
  by (simp add: with_class_def empty_result_def split: option.splits)

lemma same_groups_group:
  assumes "same_groups m m'"
  shows "group_or m' i d = group_or m i d" and "group_opt m' i = group_opt m i"
  using assms by (simp_all add: same_groups_def group_or_def group_opt_def group_def)

lemma search_again:
  assumes "plain r" and "re_search r u = Some m"
  obtains m' where "re_search r (whole m) = Some m'" and "same_groups m m'"
  using search_in_match [OF assms] by (auto simp: same_groups_def)

lemma search_part_of_match:
  assumes "plain r" and "re_search r u = None" and "re_search r' u = Some m"
  shows "re_search r (whole m) = None"
proof -
  from search_from_part [OF assms(3) [unfolded re_search_def]]
  obtain a where "u = a @ whole m @ after m" by blast
  with assms(2) search_in_part [OF assms(1), of a "whole m" "after m"] show ?thesis by simp
qed

lemma reparse_python:
  assumes "function_signature (parse_python u) = sig" and "sig \<noteq> []"
  shows "function_name (parse_python sig) = function_name (parse_python u)
         \<and> parameters (parse_python sig) = parameters (parse_python u)
         \<and> return_type (parse_python sig) = return_type (parse_python u)"
proof (cases "re_search py_func_re u")
  case None
  with assms show ?thesis by (simp add: parse_python_def with_class_signature)
next
  case (Some m)
  with assms have sig: "sig = whole m" by (auto simp: parse_python_def Let_def)
  from search_again [OF plain_patterns(1) Some] obtain m' where
    "re_search py_func_re (whole m) = Some m'" and "same_groups m m'" by blast
  with Some sig show ?thesis
    by (simp add: parse_python_def Let_def same_groups_group)
qed

lemma reparse_java:
  assumes "function_signature (parse_java u) = sig" and "sig \<noteq> []"
  shows "function_name (parse_java sig) = function_name (parse_java u)
         \<and> parameters (parse_java sig) = parameters (parse_java u)
         \<and> return_type (parse_java sig) = return_type (parse_java u)"
proof (cases "re_search java_method_re u")
  case None
  with assms show ?thesis by (simp add: parse_java_def with_class_signature)
next
  case (Some m)
  with assms have sig: "sig = whole m" by (auto simp: parse_java_def Let_def)
  from search_again [OF plain_patterns(2) Some] obtain m' where
    "re_search java_method_re (whole m) = Some m'" and "same_groups m m'" by blast
  with Some sig show ?thesis
    by (simp add: parse_java_def Let_def same_groups_group)
qed

lemma reparse_cpp:
  assumes "function_signature (parse_cpp u) = sig" and "sig \<noteq> []"
  shows "function_name (parse_cpp sig) = function_name (parse_cpp u)
         \<and> parameters (parse_cpp sig) = parameters (parse_cpp u)
         \<and> return_type (parse_cpp sig) = return_type (parse_cpp u)"
proof (cases "re_search cpp_func_re u")
  case None
  with assms show ?thesis by (simp add: parse_cpp_def with_class_signature)
next
  case (Some m)
  with assms have sig: "sig = whole m" by (auto simp: parse_cpp_def Let_def)
  from search_again [OF plain_patterns(3) Some] obtain m' where
    "re_search cpp_func_re (whole m) = Some m'" and "same_groups m m'" by blast
  with Some sig show ?thesis
    by (simp add: parse_cpp_def Let_def same_groups_group)
qed

lemma reparse_generic:
  assumes "function_signature (parse_generic u) = sig" and "sig \<noteq> []"
  shows "function_name (parse_generic sig) = function_name (parse_generic u)
         \<and> parameters (parse_generic sig) = parameters (parse_generic u)
         \<and> return_type (parse_generic sig) = return_type (parse_generic u)"
proof (cases "re_search generic_func_re u")
  case None
  with assms show ?thesis by (simp add: parse_generic_def empty_result_def)
next
  case (Some m)
  with assms have sig: "sig = whole m" by (auto simp: parse_generic_def Let_def)
  from search_again [OF plain_patterns(7) Some] obtain m' where
    "re_search generic_func_re (whole m) = Some m'" and "same_groups m m'" by blast
  with Some sig show ?thesis
    by (simp add: parse_generic_def Let_def same_groups_group)
qed

lemma js_func_match_again:
  assumes "js_func_match u = Some (m, n)"
  obtains m' where "js_func_match (whole m) = Some (m', n)" and "same_groups m m'"
proof (cases "re_search js_func_re u")
  case (Some m1)
  with assms have mn: "m1 = m" "n = 2" by (simp_all add: js_func_match_def)
  from search_again [OF plain_patterns(4) Some] obtain m' where
    "re_search js_func_re (whole m1) = Some m'" and "same_groups m1 m'" by blast
  with mn that show ?thesis by (simp add: js_func_match_def)
next
  case n1: None
  show ?thesis
  proof (cases "re_search js_arrow_re u")
    case (Some m2)
    with assms n1 have mn: "m2 = m" "n = 3" by (simp_all add: js_func_match_def)
    from search_part_of_match [OF plain_patterns(4) n1 Some]
    have a: "re_search js_func_re (whole m2) = None" .
    from search_again [OF plain_patterns(5) Some] obtain m' where
      "re_search js_arrow_re (whole m2) = Some m'" and "same_groups m2 m'" by blast
    with a mn that show ?thesis by (simp add: js_func_match_def)
  next
    case n2: None
    show ?thesis
    proof (cases "re_search js_method_re u")
      case None
      with assms n1 n2 show ?thesis by (simp add: js_func_match_def)
    next
      case (Some m3)
      with assms n1 n2 have mn: "m3 = m" "n = 2" by (simp_all add: js_func_match_def)
      from search_part_of_match [OF plain_patterns(4) n1 Some]
      have a: "re_search js_func_re (whole m3) = None" .
      from search_part_of_match [OF plain_patterns(5) n2 Some]
      have b: "re_search js_arrow_re (whole m3) = None" .
      from search_again [OF plain_patterns(6) Some] obtain m' where
        "re_search js_method_re (whole m3) = Some m'" and "same_groups m3 m'" by blast
      with a b mn that show ?thesis by (simp add: js_func_match_def)
    qed
  qed
qed

lemma reparse_javascript:
  assumes "function_signature (parse_javascript u) = sig" and "sig \<noteq> []"
  shows "function_name (parse_javascript sig) = function_name (parse_javascript u)
         \<and> parameters (parse_javascript sig) = parameters (parse_javascript u)
         \<and> return_type (parse_javascript sig) = return_type (parse_javascript u)"
proof (cases "js_func_match u")
  case None
  with assms show ?thesis by (simp add: parse_javascript_def with_class_signature)
next
  case (Some mn)
  obtain m n where mn: "mn = (m, n)" by (cases mn)
  with Some assms have sig: "sig = whole m" by (auto simp: parse_javascript_def Let_def)
  from js_func_match_again [OF Some [unfolded mn]] obtain m' where
    "js_func_match (whole m) = Some (m', n)" and "same_groups m m'" by blast
  with Some mn sig show ?thesis
    by (simp add: parse_javascript_def Let_def same_groups_group with_class_def empty_result_def
          split: option.splits)
qed

lemma static_method_in_class:
  "parse ''public class A {\<newline>  public static int f(int a) {'' =
   \<lparr>language = ''java'', function_signature = ''public static int f(int a) {'',
    function_name = ''f'', parameters = [\<lparr>p_name = ''a'', p_type = ''int'', p_default = None\<rparr>],
    return_type = ''int'', class_context = ''public class A {''\<rparr>"
  by code_simp

lemma static_method_signature_alone:
  "parse ''public static int f(int a) {'' =
   \<lparr>language = ''cpp'', function_signature = ''public static int f(int a) {'',
    function_name = ''f'', parameters = [\<lparr>p_name = ''a'', p_type = ''int'', p_default = None\<rparr>],
    return_type = ''public static int'', class_context = []\<rparr>"
  by code_simp

text \<open>
  C2, as the specification states it: whenever \<open>parse\<close> yields a non-empty
  \<open>function_signature\<close>, parsing this signature alone yields the same function name,
  parameters and return type. For a static method of a public Java class the text is
  detected as Java and the return type is \<open>int\<close>; the signature alone matches no Java
  detection pattern (\<open>public static int f\<close> has one word too many), is detected as C++, and
  the C++ pattern takes \<open>public static int\<close> for the return type.
\<close>

theorem reparse_static_method:
  "function_signature (parse ''public class A {\<newline>  public static int f(int a) {'') = ''public static int f(int a) {''
   \<and> return_type (parse ''public class A {\<newline>  public static int f(int a) {'') = ''int''
   \<and> return_type (parse ''public static int f(int a) {'') = ''public static int''"
  by (simp only: static_method_in_class static_method_signature_alone code_info.simps simp_thms)

text \<open>
  C2, amended. Whenever \<open>parse\<close> yields a non-empty \<open>function_signature\<close> that
  \<open>_clean_code_text\<close> leaves as it is and in which \<open>_detect_language\<close> finds the language
  found for the whole text, parsing this signature alone yields the same function name, the
  same parameters and the same return type.
\<close>

theorem reparse_signature:
  assumes "function_signature (parse code_text) = sig" and "sig \<noteq> []"
    and "clean_code_text sig = sig"
    and "detect_language sig = language (parse code_text)"
  shows "function_name (parse sig) = function_name (parse code_text)
         \<and> parameters (parse sig) = parameters (parse code_text)
         \<and> return_type (parse sig) = return_type (parse code_text)"
proof -
  let ?u = "clean_code_text code_text"
  let ?l = "detect_language ?u"
  from assms(1,2) have ne: "code_text \<noteq> []" by (auto simp: parse_def)
  then have l: "language (parse code_text) = ?l" by (simp add: parse_def Let_def)
  with assms(4) have dl: "detect_language sig = ?l" by simp
  consider (py) "?l = ''python''" | (java) "?l = ''java''" | (cpp) "?l = ''cpp''"
    | (js) "?l = ''javascript''"
    | (other) "?l \<noteq> ''python''" "?l \<noteq> ''java''" "?l \<noteq> ''cpp''" "?l \<noteq> ''javascript''"
    by blast
  then show ?thesis
  proof cases
    case py
    with assms(1) ne have "function_signature (parse_python ?u) = sig" by (simp add: parse_def Let_def)
    from reparse_python [OF this assms(2)] py ne assms(2,3) dl show ?thesis
      by (simp add: parse_def Let_def)
  next
    case java
    with assms(1) ne have "function_signature (parse_java ?u) = sig" by (simp add: parse_def Let_def)
    from reparse_java [OF this assms(2)] java ne assms(2,3) dl show ?thesis
      by (simp add: parse_def Let_def)
  next
    case cpp
    with assms(1) ne have "function_signature (parse_cpp ?u) = sig" by (simp add: parse_def Let_def)
    from reparse_cpp [OF this assms(2)] cpp ne assms(2,3) dl show ?thesis
      by (simp add: parse_def Let_def)
  next
    case js
    with assms(1) ne have "function_signature (parse_javascript ?u) = sig" by (simp add: parse_def Let_def)
    from reparse_javascript [OF this assms(2)] js ne assms(2,3) dl show ?thesis
      by (simp add: parse_def Let_def)
  next
    case other
    with assms(1) ne have "function_signature (parse_generic ?u) = sig" by (simp add: parse_def Let_def)
    from reparse_generic [OF this assms(2)] other ne assms(2,3) dl show ?thesis
      by (simp add: parse_def Let_def)
  qed
qed

lemma parse_python_method:
  "parse ''class S:\<newline>  def f(self, a: int) -> int:'' =
   \<lparr>language = ''python'', function_signature = ''def f(self, a: int) -> int:'',
    function_name = ''f'',
    parameters = [\<lparr>p_name = ''self'', p_type = [], p_default = None\<rparr>,
                  \<lparr>p_name = ''a'', p_type = ''int'', p_default = None\<rparr>],
    return_type = ''int'', class_context = ''class S:''\<rparr>"
  by code_simp

lemma clean_python_signature:
  "clean_code_text ''def f(self, a: int) -> int:'' = ''def f(self, a: int) -> int:''"
  by code_simp

lemma detect_python_signature: "detect_language ''def f(self, a: int) -> int:'' = ''python''"
  by code_simp

theorem reparse_signature_witness:
  "function_signature (parse ''class S:\<newline>  def f(self, a: int) -> int:'') = ''def f(self, a: int) -> int:''
   \<and> ''def f(self, a: int) -> int:'' \<noteq> []
   \<and> clean_code_text ''def f(self, a: int) -> int:'' = ''def f(self, a: int) -> int:''
   \<and> detect_language ''def f(self, a: int) -> int:'' = language (parse ''class S:\<newline>  def f(self, a: int) -> int:'')
   \<and> function_name (parse ''def f(self, a: int) -> int:'') = ''f''
   \<and> parameters (parse ''def f(self, a: int) -> int:'') =
       [\<lparr>p_name = ''self'', p_type = [], p_default = None\<rparr>,
        \<lparr>p_name = ''a'', p_type = ''int'', p_default = None\<rparr>]
   \<and> return_type (parse ''def f(self, a: int) -> int:'') = ''int''"
proof -
  have 1: "function_signature (parse ''class S:\<newline>  def f(self, a: int) -> int:'') = ''def f(self, a: int) -> int:''"
    by (simp only: parse_python_method code_info.simps)
  have 2: "''def f(self, a: int) -> int:'' \<noteq> []" by simp
  have 4: "detect_language ''def f(self, a: int) -> int:'' = language (parse ''class S:\<newline>  def f(self, a: int) -> int:'')"
    by (simp only: parse_python_method detect_python_signature code_info.simps)
  from reparse_signature [OF 1 2 clean_python_signature 4]
  have "function_name (parse ''def f(self, a: int) -> int:'') = ''f''
        \<and> parameters (parse ''def f(self, a: int) -> int:'') =
            [\<lparr>p_name = ''self'', p_type = [], p_default = None\<rparr>,
             \<lparr>p_name = ''a'', p_type = ''int'', p_default = None\<rparr>]
        \<and> return_type (parse ''def f(self, a: int) -> int:'') = ''int''"
    by (simp only: parse_python_method code_info.simps)
  with 1 2 clean_python_signature 4 show ?thesis by blast
qed

end
